theory Spec2Isabelle
  imports Main "HOL-Library.Multiset"
begin

section \<open>godepgraph: the import-graph walker and its graph renderer\<close>

text \<open>
  The program under study is the path-based-id version of godepgraph (one Go file, package
  main). It resolves the transitive imports of one root package through
  \<^verbatim>\<open>go/build\<close>, filters them, and prints a Graphviz digraph. All of its state lives in
  package-level variables; here the flags are a record, the mutable globals are a second
  record that every function takes and returns, and the two things the program does not
  control are parameters: the metadata provider \<^verbatim>\<open>build.Import\<close> and the order in which
  a \<^verbatim>\<open>range\<close> loop visits the keys of a Go map.
\<close>

subsection \<open>The string functions of the Go library that the program calls\<close>

text \<open>
  Strings are byte lists. \<^verbatim>\<open>strings.HasPrefix(s, p)\<close> is
  \<^verbatim>\<open>len(s) >= len(p) && s[:len(p)] == p\<close>.
\<close>

definition HasPrefix :: "string \<Rightarrow> string \<Rightarrow> bool" where
  "HasPrefix s p = (length p \<le> length s \<and> take (length p) s = p)"

text \<open>
  \<^verbatim>\<open>strings.Split(s, sep)\<close> for a separator of one byte, the only kind the program
  uses (\<^verbatim>\<open>"/"\<close> and \<^verbatim>\<open>","\<close>). A string without the separator, the empty
  string included, gives a slice of length one.
\<close>

fun Split :: "string \<Rightarrow> char \<Rightarrow> string list" where
  "Split [] sep = [[]]"
| "Split (c # cs) sep =
     (if c = sep then [] # Split cs sep
      else (case Split cs sep of
              [] \<Rightarrow> [[c]]
            | w # ws \<Rightarrow> (c # w) # ws))"

text \<open>\<^verbatim>\<open>strings.Join(elems, sep)\<close>.\<close>

fun Join :: "string list \<Rightarrow> string \<Rightarrow> string" where
  "Join [] sep = []"
| "Join [w] sep = w"
| "Join (w # v # ws) sep = w @ sep @ Join (v # ws) sep"

text \<open>
  \<^verbatim>\<open>strings.ToLower\<close> and \<^verbatim>\<open>strings.TrimSpace\<close> on ASCII: the letters
  \<^verbatim>\<open>A\<close> to \<^verbatim>\<open>Z\<close> move to lower case, and the white space removed at both ends
  is tab, line feed, vertical tab, form feed, carriage return and space. Bytes outside
  ASCII are left as they are.
\<close>

definition toLowerChar :: "char \<Rightarrow> char" where
  "toLowerChar c =
     (let n = (of_char c :: nat)
      in if 65 \<le> n \<and> n \<le> 90 then char_of (n + 32) else c)"

definition ToLower :: "string \<Rightarrow> string" where
  "ToLower s = map toLowerChar s"

definition isSpace :: "char \<Rightarrow> bool" where
  "isSpace c = (let n = (of_char c :: nat) in (9 \<le> n \<and> n \<le> 13) \<or> n = 32)"

definition TrimSpace :: "string \<Rightarrow> string" where
  "TrimSpace s = rev (dropWhile isSpace (rev (dropWhile isSpace s)))"

subsection \<open>Data: packages, flags and the package-level variables\<close>

text \<open>The fields of \<^verbatim>\<open>build.Package\<close> that the program reads.\<close>

record package =
  ImportPath :: string
  Goroot :: bool
  CgoFiles :: "string list"
  Imports :: "string list"

text \<open>The command-line flags, as \<^verbatim>\<open>flag.Parse\<close> leaves them.\<close>

record flags =
  ignoreStdlib :: bool
  ignorePrefixes :: string
  ignorePackages :: string
  includePackages :: string
  filterByBasePath :: bool
  subgraph :: bool
  networkSubgraphs :: bool

text \<open>
  The package-level variables. \<^verbatim>\<open>ignored\<close> is a \<^verbatim>\<open>map[string]bool\<close> that only
  ever stores \<^verbatim>\<open>true\<close>, and a missing key reads as \<^verbatim>\<open>false\<close>: a set.
\<close>

record globals =
  pkgs :: "string \<rightharpoonup> package"
  networkPackages :: "string \<rightharpoonup> string"
  ignored :: "string set"
  ignoredPrefixes :: "string list"
  includedPackages :: "string list"
  basePath :: string

subsection \<open>Configuration\<close>

definition sanitizeCSV :: "string \<Rightarrow> string list" where
  "sanitizeCSV csv = map (\<lambda>v. ToLower (TrimSpace v)) (Split csv (CHR '',''))"

text \<open>
  The variables as \<^verbatim>\<open>main\<close> has set them when it calls \<^verbatim>\<open>processPackage\<close>: both maps
  empty, the ignore set holding \<^verbatim>\<open>"C"\<close> and the sanitised entries of \<^verbatim>\<open>-i\<close>, the two
  prefix lists from \<^verbatim>\<open>-p\<close> and \<^verbatim>\<open>-n\<close>, and no base path.
\<close>

definition configure :: "flags \<Rightarrow> globals" where
  "configure fl =
     \<lparr> pkgs = Map.empty,
       networkPackages = Map.empty,
       ignored = (if ignorePackages fl \<noteq> [] then set (sanitizeCSV (ignorePackages fl)) \<union> {''C''}
                  else {''C''}),
       ignoredPrefixes = (if ignorePrefixes fl \<noteq> [] then sanitizeCSV (ignorePrefixes fl) else []),
       includedPackages = (if includePackages fl \<noteq> [] then sanitizeCSV (includePackages fl) else []),
       basePath = [] \<rparr>"

subsection \<open>The filter policy\<close>

fun hasPrefixes :: "string \<Rightarrow> string list \<Rightarrow> bool" where
  "hasPrefixes s [] = False"
| "hasPrefixes s (p # prefixes) = (if HasPrefix s p then True else hasPrefixes s prefixes)"

definition isNotOfBasepath :: "flags \<Rightarrow> string \<Rightarrow> string \<Rightarrow> bool" where
  "isNotOfBasepath fl importPath bp = (filterByBasePath fl \<and> \<not> HasPrefix importPath bp)"

definition isIgnored :: "flags \<Rightarrow> globals \<Rightarrow> package \<Rightarrow> bool" where
  "isIgnored fl g pkg =
     (\<not> hasPrefixes (ImportPath pkg) (includedPackages g) \<and>
      (ImportPath pkg \<in> ignored g \<or>
       (Goroot pkg \<and> ignoreStdlib fl) \<or>
       hasPrefixes (ImportPath pkg) (ignoredPrefixes g) \<or>
       isNotOfBasepath fl (ImportPath pkg) (basePath g)))"

subsection \<open>The graph builder\<close>

text \<open>
  \<^verbatim>\<open>build.Import(pkgName, root, 0)\<close> is the parameter \<open>buildImport\<close>: the root is the
  working directory throughout a run, so the provider is a function of the import string
  that gives either the error's text or the package.

  \<^verbatim>\<open>processPackage\<close> calls itself from inside its loop over the imports, and nothing in
  the code bounds the depth, so the model carries fuel: the number of nested calls that
  may still be opened. \<open>None\<close> says the fuel ran out before the call returned;
  \<open>Some (Inl err)\<close> is the returned error, \<open>Some (Inr g)\<close> the variables after a
  \<^verbatim>\<open>nil\<close> return.
\<close>

text \<open>The loop over \<^verbatim>\<open>pkg.Imports\<close>; \<open>call\<close> is the recursive call.\<close>

fun forImports ::
  "(string \<Rightarrow> globals \<Rightarrow> (string + globals) option) \<Rightarrow> string list \<Rightarrow> globals
     \<Rightarrow> (string + globals) option" where
  "forImports call [] g = Some (Inr g)"
| "forImports call (imp # imps) g =
     (if imp \<in> dom (pkgs g) then forImports call imps g
      else (case call imp g of
              None \<Rightarrow> None
            | Some (Inl err) \<Rightarrow> Some (Inl err)
            | Some (Inr g') \<Rightarrow> forImports call imps g'))"

primrec processPackage ::
  "flags \<Rightarrow> (string \<Rightarrow> string + package) \<Rightarrow> nat \<Rightarrow> string \<Rightarrow> globals
     \<Rightarrow> (string + globals) option" where
  "processPackage fl buildImport 0 pkgName g = None"
| "processPackage fl buildImport (Suc fuel) pkgName g =
     (if pkgName \<in> ignored g then Some (Inr g)
      else (case buildImport pkgName of
              Inl err \<Rightarrow> Some (Inl (''failed to import '' @ pkgName @ '': '' @ err))
            | Inr pkg \<Rightarrow>
                if isIgnored fl g pkg then Some (Inr g)
                else
                  let g1 = (if basePath g = []
                            then (let basePathSplit = Split (ImportPath pkg) (CHR ''/'')
                                  in g\<lparr>basePath :=
                                         Join (take (length basePathSplit - 1) basePathSplit) ''/''\<rparr>)
                            else g);
                      g2 = g1\<lparr>pkgs := (pkgs g1)(ImportPath pkg \<mapsto> pkg)\<rparr>
                  in if Goroot pkg then Some (Inr g2)
                     else forImports (processPackage fl buildImport fuel) (Imports pkg) g2))"

subsection \<open>The renderer\<close>

text \<open>
  Standard output is a list of statements, one for every \<^verbatim>\<open>Println\<close> and \<^verbatim>\<open>Printf\<close>
  of the program. A node or edge statement keeps the arguments that \<^verbatim>\<open>printNode\<close> and
  \<^verbatim>\<open>printEdge\<close> hand to \<^verbatim>\<open>Printf\<close>; \<open>showStmt\<close> is the format string applied to
  them, and every statement ends with a line feed.
\<close>

datatype stmt =
  Line string
| NodeStmt string string string
| EdgeStmt string string

definition dq :: string where
  "dq = [CHR 0x22]"

fun showStmt :: "stmt \<Rightarrow> string" where
  "showStmt (Line l) = l"
| "showStmt (NodeStmt ident label color) =
     dq @ ident @ dq @ '' [label='' @ dq @ label @ dq @ '' style='' @ dq @ ''filled'' @ dq @
     '' color='' @ dq @ color @ dq @ ''];''"
| "showStmt (EdgeStmt source dest) = dq @ source @ dq @ '' -> '' @ dq @ dest @ dq @ '';''"


definition ns :: "globals \<Rightarrow> string \<Rightarrow> string" where
  "ns g name = basePath g @ '':'' @ name"

definition printSubgraphHead :: "string \<Rightarrow> stmt list" where
  "printSubgraphHead name =
     [Line (''subgraph '' @ dq @ ''cluster'' @ name @ dq @ '' {''),
      Line ''style=filled;'',
      Line ''color=lightgrey;'',
      Line (''label='' @ dq @ name @ dq)]"

definition printNode :: "globals \<Rightarrow> string \<Rightarrow> string \<Rightarrow> stmt" where
  "printNode g name color = NodeStmt (ns g name) name color"

definition printEdge :: "globals \<Rightarrow> string \<Rightarrow> string \<Rightarrow> stmt" where
  "printEdge g source dest = EdgeStmt (ns g source) (ns g dest)"

text \<open>The inner loop of \<^verbatim>\<open>main\<close> over the imports of one rendered package.\<close>

fun printEdges :: "flags \<Rightarrow> globals \<Rightarrow> string \<Rightarrow> string list \<Rightarrow> stmt list" where
  "printEdges fl g pkgId [] = []"
| "printEdges fl g pkgId (imp # imps) =
     (case pkgs g imp of
        None \<Rightarrow> printEdges fl g pkgId imps
      | Some impPkg \<Rightarrow>
          if isIgnored fl g impPkg then printEdges fl g pkgId imps
          else printEdge g pkgId imp # printEdges fl g pkgId imps)"

text \<open>
  The main loop, \<^verbatim>\<open>for pkgName, pkg := range pkgs\<close>. Go does not fix the order in which
  a \<^verbatim>\<open>range\<close> visits a map, so the order is the argument \<open>keys\<close>; a string that is no
  key of the map is not visited. The result is the statements printed and the variables
  afterwards (the loop fills \<^verbatim>\<open>networkPackages\<close>).
\<close>

fun renderPkgs :: "flags \<Rightarrow> globals \<Rightarrow> string list \<Rightarrow> stmt list \<times> globals" where
  "renderPkgs fl g [] = ([], g)"
| "renderPkgs fl g (pkgName # keys) =
     (case pkgs g pkgName of
        None \<Rightarrow> renderPkgs fl g keys
      | Some pkg \<Rightarrow>
          if isIgnored fl g pkg then renderPkgs fl g keys
          else
            let pkgId = pkgName;
                color = (if Goroot pkg then ''palegreen''
                         else if length (CgoFiles pkg) > 0 then ''darkgoldenrod1''
                         else if hasPrefixes (ImportPath pkg) (includedPackages g) then ''violet''
                         else ''paleturquoise'');
                g' = (if networkSubgraphs fl \<and>
                         hasPrefixes (ImportPath pkg) (includedPackages g) \<and>
                         \<not> HasPrefix (ImportPath pkg) (basePath g)
                      then g\<lparr>networkPackages := (networkPackages g)(pkgName \<mapsto> pkgId)\<rparr>
                      else g);
                rest = renderPkgs fl g' keys
            in (printNode g pkgName color # printEdges fl g pkgId (Imports pkg) @ fst rest,
                snd rest))"

text \<open>The second loop, \<^verbatim>\<open>for pkgName, pkgId := range networkPackages\<close>.\<close>

fun renderNetwork :: "globals \<Rightarrow> string list \<Rightarrow> stmt list" where
  "renderNetwork g [] = []"
| "renderNetwork g (pkgName # keys) =
     (case networkPackages g pkgName of
        None \<Rightarrow> renderNetwork g keys
      | Some pkgId \<Rightarrow>
          let nameSplit = Split pkgName (CHR ''/'');
              name = nameSplit ! (length nameSplit - 1)
          in printSubgraphHead name @
             [printNode g name ''paleturquoise'', Line ''}'', printEdge g pkgId name] @
             renderNetwork g keys)"

text \<open>
  Everything \<^verbatim>\<open>main\<close> prints once \<^verbatim>\<open>processPackage\<close> has returned \<^verbatim>\<open>nil\<close>;
  \<open>keys1\<close> and \<open>keys2\<close> are the orders of the two \<^verbatim>\<open>range\<close> loops.
\<close>

definition render :: "flags \<Rightarrow> globals \<Rightarrow> string list \<Rightarrow> string list \<Rightarrow> stmt list" where
  "render fl g keys1 keys2 =
     (let body = renderPkgs fl g keys1
      in [Line ''digraph godep {''] @
         (if subgraph fl \<and> basePath g \<noteq> [] then printSubgraphHead (basePath g) else []) @
         fst body @
         (if subgraph fl \<and> basePath g \<noteq> [] then [Line ''}''] else []) @
         renderNetwork (snd body) keys2 @
         [Line ''}''])"

text \<open>
  A run of the program: \<^verbatim>\<open>log.Fatal\<close> ends it with a message on standard error and
  nothing on standard output; otherwise it ends with the statements printed. (The failure
  of \<^verbatim>\<open>os.Getwd\<close> is left out: the working directory is part of the provider.)
\<close>

datatype outcome = Fatal string | Printed "stmt list"

definition main ::
  "flags \<Rightarrow> string list \<Rightarrow> (string \<Rightarrow> string + package) \<Rightarrow> nat \<Rightarrow> string list \<Rightarrow> string list
     \<Rightarrow> outcome option" where
  "main fl args buildImport fuel keys1 keys2 =
     (if length args \<noteq> 1 then Some (Fatal ''need one package name to process'')
      else (case processPackage fl buildImport fuel (args ! 0) (configure fl) of
              None \<Rightarrow> None
            | Some (Inl err) \<Rightarrow> Some (Fatal err)
            | Some (Inr g) \<Rightarrow> Some (Printed (render fl g keys1 keys2))))"

subsection \<open>The counter-based-id version\<close>













subsection \<open>Auxiliary definitions for the proofs\<close>

text \<open>
  What one pass of the main loop prints for the key \<open>pkgName\<close>, and whether that pass
  enters the key into \<^verbatim>\<open>networkPackages\<close>. Both follow the body of \<open>renderPkgs\<close>;
  \<open>renderPkgs_step\<close> below ties them to it.
\<close>

definition pkgStmts :: "flags \<Rightarrow> globals \<Rightarrow> string \<Rightarrow> stmt list" where
  "pkgStmts fl g pkgName =
     (case pkgs g pkgName of
        None \<Rightarrow> []
      | Some pkg \<Rightarrow>
          if isIgnored fl g pkg then []
          else printNode g pkgName
                 (if Goroot pkg then ''palegreen''
                  else if length (CgoFiles pkg) > 0 then ''darkgoldenrod1''
                  else if hasPrefixes (ImportPath pkg) (includedPackages g) then ''violet''
                  else ''paleturquoise'')
               # printEdges fl g pkgName (Imports pkg))"

definition isNetworkPackage :: "flags \<Rightarrow> globals \<Rightarrow> string \<Rightarrow> bool" where
  "isNetworkPackage fl g pkgName =
     (case pkgs g pkgName of
        None \<Rightarrow> False
      | Some pkg \<Rightarrow>
          \<not> isIgnored fl g pkg \<and> networkSubgraphs fl \<and>
          hasPrefixes (ImportPath pkg) (includedPackages g) \<and>
          \<not> HasPrefix (ImportPath pkg) (basePath g))"

text \<open>What one pass of the second loop prints for a key that maps to itself.\<close>

definition networkStmts :: "globals \<Rightarrow> string \<Rightarrow> stmt list" where
  "networkStmts g pkgName =
     (let name = last (Split pkgName (CHR ''/''))
      in printSubgraphHead name @
         [NodeStmt (basePath g @ '':'' @ name) name ''paleturquoise'',
          Line ''}'',
          EdgeStmt (basePath g @ '':'' @ pkgName) (basePath g @ '':'' @ name)])"

text \<open>
  A statement is namespaced by \<open>bp\<close> when its identifiers are \<open>bp\<close>, a colon and a name;
  for a node the name is its label.
\<close>

definition namespaced :: "string \<Rightarrow> stmt \<Rightarrow> bool" where
  "namespaced bp s =
     (case s of
        Line l \<Rightarrow> True
      | NodeStmt ident label color \<Rightarrow> ident = bp @ '':'' @ label
      | EdgeStmt source dest \<Rightarrow> (\<exists>x y. source = bp @ '':'' @ x \<and> dest = bp @ '':'' @ y))"

subsection \<open>Example inputs\<close>

text \<open>
  A small project: \<^verbatim>\<open>github.com/x/app\<close> imports its library, the cgo pseudo-package
  \<^verbatim>\<open>C\<close> and a vendored package; the library imports \<^verbatim>\<open>fmt\<close> and, in a cycle, the
  application. Every package is found under the path it is imported by.
\<close>

definition ex_app :: package where
  "ex_app = \<lparr> ImportPath = ''github.com/x/app'', Goroot = False, CgoFiles = [],
              Imports = [''github.com/x/lib/a'', ''C'', ''vendor/special/x''] \<rparr>"

definition ex_lib :: package where
  "ex_lib = \<lparr> ImportPath = ''github.com/x/lib/a'', Goroot = False, CgoFiles = [],
              Imports = [''fmt'', ''github.com/x/app''] \<rparr>"

definition ex_fmt :: package where
  "ex_fmt = \<lparr> ImportPath = ''fmt'', Goroot = True, CgoFiles = [], Imports = [''errors''] \<rparr>"

definition ex_special :: package where
  "ex_special = \<lparr> ImportPath = ''vendor/special/x'', Goroot = False, CgoFiles = [],
                  Imports = [] \<rparr>"

definition ex_Import :: "string \<Rightarrow> string + package" where
  "ex_Import p =
     (if p = ''github.com/x/app'' then Inr ex_app
      else if p = ''github.com/x/lib/a'' then Inr ex_lib
      else if p = ''fmt'' then Inr ex_fmt
      else if p = ''vendor/special/x'' then Inr ex_special
      else Inl ''cannot find package'')"

text \<open>The flags \<^verbatim>\<open>-n vendor/special -subgraph -network-subgraphs\<close>.\<close>

definition ex_flags :: flags where
  "ex_flags = \<lparr> ignoreStdlib = False, ignorePrefixes = [], ignorePackages = [],
                includePackages = ''vendor/special'', filterByBasePath = False,
                subgraph = True, networkSubgraphs = True \<rparr>"

text \<open>The variables after \<^verbatim>\<open>processPackage\<close> has walked the project under these flags.\<close>

definition ex_globals :: globals where
  "ex_globals =
     \<lparr> pkgs = [''github.com/x/app'' \<mapsto> ex_app, ''github.com/x/lib/a'' \<mapsto> ex_lib,
               ''fmt'' \<mapsto> ex_fmt, ''vendor/special/x'' \<mapsto> ex_special],
       networkPackages = Map.empty,
       ignored = {''C''},
       ignoredPrefixes = [],
       includedPackages = [''vendor/special''],
       basePath = ''github.com/x'' \<rparr>"

definition ex_keys :: "string list" where
  "ex_keys = [''fmt'', ''github.com/x/app'', ''vendor/special/x'', ''github.com/x/lib/a'']"

text \<open>
  The variables right after \<^verbatim>\<open>processPackage\<close> has entered a package: the base path
  inferred if there was none, and the package stored under its import path.
\<close>

definition enter :: "globals \<Rightarrow> package \<Rightarrow> globals" where
  "enter g pkg =
     (let g1 = (if basePath g = []
                then (let basePathSplit = Split (ImportPath pkg) (CHR ''/'')
                      in g\<lparr>basePath := Join (take (length basePathSplit - 1) basePathSplit) ''/''\<rparr>)
                else g)
      in g1\<lparr>pkgs := (pkgs g1)(ImportPath pkg \<mapsto> pkg)\<rparr>)"

text \<open>The text of the error that \<^verbatim>\<open>processPackage\<close> returns.\<close>

definition importError :: "string \<Rightarrow> string \<Rightarrow> string" where
  "importError pkgName err = ''failed to import '' @ pkgName @ '': '' @ err"

text \<open>
  What a call of \<^verbatim>\<open>processPackage\<close> that returns \<^verbatim>\<open>nil\<close> may have changed: packages
  were added, and a base path was set if there was none.
\<close>

definition extends :: "globals \<Rightarrow> globals \<Rightarrow> bool" where
  "extends g g' \<longleftrightarrow>
     ignored g' = ignored g \<and> ignoredPrefixes g' = ignoredPrefixes g \<and>
     includedPackages g' = includedPackages g \<and> networkPackages g' = networkPackages g \<and>
     dom (pkgs g) \<subseteq> dom (pkgs g') \<and>
     (if basePath g = [] then True else basePath g' = basePath g)"




text \<open>The same project when \<^verbatim>\<open>fmt\<close> cannot be found.\<close>

definition ex_broken_Import :: "string \<Rightarrow> string + package" where
  "ex_broken_Import p = (if p = ''fmt'' then Inl ''cannot find package'' else ex_Import p)"

text \<open>A project outside any directory: no import path has a slash, so no base path arises.\<close>

definition ex_flat_globals :: globals where
  "ex_flat_globals =
     \<lparr> pkgs = [''app'' \<mapsto> \<lparr> ImportPath = ''app'', Goroot = False, CgoFiles = [],
                             Imports = [''lib''] \<rparr>,
               ''lib'' \<mapsto> \<lparr> ImportPath = ''lib'', Goroot = False, CgoFiles = [],
                             Imports = [] \<rparr>],
       networkPackages = Map.empty,
       ignored = {''C''},
       ignoredPrefixes = [],
       includedPackages = [],
       basePath = [] \<rparr>"

definition ex_no_flags :: flags where
  "ex_no_flags = \<lparr> ignoreStdlib = False, ignorePrefixes = [], ignorePackages = [],
                   includePackages = [], filterByBasePath = False,
                   subgraph = False, networkSubgraphs = False \<rparr>"

text \<open>
  A package whose import path has a capital letter, imported by the root, and the flags
  \<^verbatim>\<open>-i "Sirupsen/logrus"\<close> that name it.
\<close>

definition ex_logrus :: package where
  "ex_logrus = \<lparr> ImportPath = ''Sirupsen/logrus'', Goroot = False, CgoFiles = [], Imports = [] \<rparr>"

definition ex_tool :: package where
  "ex_tool = \<lparr> ImportPath = ''tool'', Goroot = False, CgoFiles = [],
               Imports = [''Sirupsen/logrus''] \<rparr>"

definition ex_case_Import :: "string \<Rightarrow> string + package" where
  "ex_case_Import p =
     (if p = ''tool'' then Inr ex_tool
      else if p = ''Sirupsen/logrus'' then Inr ex_logrus
      else Inl ''cannot find package'')"

definition ex_case_flags :: flags where
  "ex_case_flags = \<lparr> ignoreStdlib = False, ignorePrefixes = [],
                     ignorePackages = ''Sirupsen/logrus'',
                     includePackages = [], filterByBasePath = False,
                     subgraph = False, networkSubgraphs = False \<rparr>"

text \<open>
  Two vendored packages that import each other: the import strings \<^verbatim>\<open>a\<close> and \<^verbatim>\<open>b\<close>
  resolve to packages whose import paths are \<^verbatim>\<open>x/vendor/a\<close> and \<^verbatim>\<open>x/vendor/b\<close>.
\<close>

definition ex_cycle_a :: package where
  "ex_cycle_a = \<lparr> ImportPath = ''x/vendor/a'', Goroot = False, CgoFiles = [], Imports = [''b''] \<rparr>"

definition ex_cycle_b :: package where
  "ex_cycle_b = \<lparr> ImportPath = ''x/vendor/b'', Goroot = False, CgoFiles = [], Imports = [''a''] \<rparr>"

definition ex_cycle_Import :: "string \<Rightarrow> string + package" where
  "ex_cycle_Import p =
     (if p = ''a'' then Inr ex_cycle_a
      else if p = ''b'' then Inr ex_cycle_b
      else Inl ''cannot find package'')"

text \<open>What holds of the variables throughout the walk of that cycle.\<close>

definition cycle_inv :: "globals \<Rightarrow> bool" where
  "cycle_inv g \<longleftrightarrow>
     ignored g = {''C''} \<and> ignoredPrefixes g = [] \<and> includedPackages g = [] \<and>
     dom (pkgs g) \<subseteq> {''x/vendor/a'', ''x/vendor/b''}"

text \<open>
  A finite import graph in canonical spelling: \<open>V\<close> is a finite set of import strings,
  closed under the imports of the packages they resolve to, and every package is found
  under its own import path.
\<close>

definition canonical :: "(string \<Rightarrow> string + package) \<Rightarrow> string set \<Rightarrow> bool" where
  "canonical bi V \<longleftrightarrow>
     finite V \<and>
     (\<forall>p \<in> V. \<forall>pkg. bi p = Inr pkg \<longrightarrow> ImportPath pkg = p \<and> set (Imports pkg) \<subseteq> V)"















text \<open>
  An import string is handled in a state when the loop over the imports can pass it without
  an error: it is a key of the package set, or in the ignore set, or the provider resolves it.
\<close>

definition handled :: "(string \<Rightarrow> string + package) \<Rightarrow> globals \<Rightarrow> string \<Rightarrow> bool" where
  "handled bi g imp \<longleftrightarrow>
     imp \<in> dom (pkgs g) \<or> imp \<in> ignored g \<or> (\<exists>q. bi imp = Inr q)"

definition importsHandled :: "(string \<Rightarrow> string + package) \<Rightarrow> globals \<Rightarrow> string \<Rightarrow> bool" where
  "importsHandled bi g k \<longleftrightarrow>
     (\<forall>pkg. pkgs g k = Some pkg \<and> \<not> Goroot pkg \<longrightarrow> (\<forall>imp \<in> set (Imports pkg). handled bi g imp))"

definition closes :: "(string \<Rightarrow> string + package) \<Rightarrow> globals \<Rightarrow> globals \<Rightarrow> bool" where
  "closes bi g g' \<longleftrightarrow>
     extends g g' \<and>
     (\<forall>k. pkgs g' k \<noteq> pkgs g k \<or> importsHandled bi g k \<longrightarrow> importsHandled bi g' k)"

text \<open>Two imports of which the second cannot be found.\<close>

definition ex_late_root :: package where
  "ex_late_root = \<lparr> ImportPath = ''tool'', Goroot = False, CgoFiles = [],
                    Imports = [''x/ok'', ''x/missing''] \<rparr>"

definition ex_late_ok :: package where
  "ex_late_ok = \<lparr> ImportPath = ''x/ok'', Goroot = False, CgoFiles = [], Imports = [] \<rparr>"

definition ex_late_Import :: "string \<Rightarrow> string + package" where
  "ex_late_Import p =
     (if p = ''tool'' then Inr ex_late_root
      else if p = ''x/ok'' then Inr ex_late_ok
      else Inl ''cannot find package'')"

section \<open>Properties\<close>

subsection \<open>The library functions and the renderer's loops\<close>

lemma hasPrefixes_iff: "hasPrefixes s ps \<longleftrightarrow> (\<exists>p \<in> set ps. HasPrefix s p)"
  by (induction ps) auto

lemma Split_not_Nil: "Split s sep \<noteq> []"
  by (induction s) (auto split: list.splits)

lemma Split_last: "Split s sep ! (length (Split s sep) - Suc 0) = last (Split s sep)"
  by (simp add: Split_not_Nil last_conv_nth)

lemma isIgnored_networkPackages [simp]:
  "isIgnored fl (g\<lparr>networkPackages := m\<rparr>) pkg = isIgnored fl g pkg"
  by (simp add: isIgnored_def)

lemma printEdges_networkPackages [simp]:
  "printEdges fl (g\<lparr>networkPackages := m\<rparr>) pkgId imps = printEdges fl g pkgId imps"
  by (induction imps) (auto simp: printEdge_def ns_def split: option.splits)

lemma pkgStmts_networkPackages [simp]:
  "pkgStmts fl (g\<lparr>networkPackages := m\<rparr>) = pkgStmts fl g"
  by (rule ext) (simp add: pkgStmts_def printNode_def ns_def split: option.splits)

lemma isNetworkPackage_networkPackages [simp]:
  "isNetworkPackage fl (g\<lparr>networkPackages := m\<rparr>) = isNetworkPackage fl g"
  by (rule ext) (simp add: isNetworkPackage_def split: option.splits)

lemma renderPkgs_step:
  "renderPkgs fl g (k # keys) =
     (let g' = (if isNetworkPackage fl g k
                then g\<lparr>networkPackages := (networkPackages g)(k \<mapsto> k)\<rparr> else g);
          rest = renderPkgs fl g' keys
      in (pkgStmts fl g k @ fst rest, snd rest))"
  by (auto simp: pkgStmts_def isNetworkPackage_def Let_def split: option.splits prod.splits)

lemma renderPkgs_fst: "fst (renderPkgs fl g keys) = concat (map (pkgStmts fl g) keys)"
proof (induction keys arbitrary: g)
  case Nil
  show ?case by simp
next
  case (Cons k keys)
  show ?case
    unfolding renderPkgs_step by (simp add: Let_def Cons.IH)
qed

lemma renderPkgs_snd:
  "snd (renderPkgs fl g keys) =
     g\<lparr>networkPackages :=
         (\<lambda>k. if k \<in> set keys \<and> isNetworkPackage fl g k then Some k else networkPackages g k)\<rparr>"
proof (induction keys arbitrary: g)
  case Nil
  show ?case by simp
next
  case (Cons k keys)
  show ?case
    unfolding renderPkgs_step by (auto simp add: Let_def Cons.IH fun_eq_iff)
qed

lemma renderNetwork_eq:
  "\<forall>k \<in> set keys. networkPackages g k = Some k \<Longrightarrow>
   renderNetwork g keys = concat (map (networkStmts g) keys)"
  by (induction keys)
     (auto simp: networkStmts_def Let_def Split_last printNode_def printEdge_def ns_def)

lemma ns_inject [simp]: "ns g a = ns g b \<longleftrightarrow> a = b"
  by (simp add: ns_def)

lemma printEdges_set:
  "set (printEdges fl g pkgId imps) =
     {printEdge g pkgId imp | imp.
        imp \<in> set imps \<and> (\<exists>q. pkgs g imp = Some q \<and> \<not> isIgnored fl g q)}"
  by (induction imps) (auto split: option.splits)


lemma printEdges_namespaced:
  "s \<in> set (printEdges fl g pkgId imps) \<Longrightarrow>
     \<exists>x y. s = EdgeStmt (basePath g @ '':'' @ x) (basePath g @ '':'' @ y)"
  by (auto simp: printEdges_set printEdge_def ns_def)

lemma pkgStmts_namespaced: "s \<in> set (pkgStmts fl g k) \<Longrightarrow> namespaced (basePath g) s"
  by (auto simp: pkgStmts_def namespaced_def printNode_def ns_def
           dest: printEdges_namespaced split: option.splits if_splits)

lemma renderNetwork_namespaced:
  "s \<in> set (renderNetwork g keys) \<Longrightarrow> namespaced (basePath g) s"
  by (induction keys)
     (auto simp: namespaced_def printSubgraphHead_def printNode_def printEdge_def ns_def Let_def
           split: option.splits)

lemma render_namespaced:
  "s \<in> set (render fl g keys1 keys2) \<Longrightarrow> namespaced (basePath g) s"
  by (auto simp: render_def Let_def renderPkgs_fst renderPkgs_snd printSubgraphHead_def
           dest: pkgStmts_namespaced dest!: renderNetwork_namespaced
           split: if_splits)
     (auto simp: namespaced_def)

subsection \<open>The filter policy\<close>

text \<open>
  C2. A package whose import path starts with one of the always-include prefixes is never
  ignored, whatever the flags and the other variables are: the ignore set, the
  ignore-platform toggle, the ignored prefixes and the base-path restriction are not
  consulted.
\<close>

theorem isIgnored_always_include:
  "hasPrefixes (ImportPath pkg) (includedPackages g) \<Longrightarrow> isIgnored fl g pkg = False"
  by (simp add: isIgnored_def)

text \<open>
  A platform package that sits in the ignore set, matches an ignored prefix and lies
  outside the base path, with both \<^verbatim>\<open>-s\<close> and \<^verbatim>\<open>-b\<close> given, is still kept once an
  always-include prefix matches it.
\<close>

theorem isIgnored_always_include_witness:
  "hasPrefixes ''net/http'' [''net/h''] \<and>
   ''net/http'' \<in> {''C'', ''net/http''} \<and>
   hasPrefixes ''net/http'' [''net''] \<and>
   isNotOfBasepath
     \<lparr> ignoreStdlib = True, ignorePrefixes = ''net'', ignorePackages = ''net/http'',
       includePackages = ''net/h'', filterByBasePath = True, subgraph = False,
       networkSubgraphs = False \<rparr> ''net/http'' ''github.com/x'' \<and>
   isIgnored
     \<lparr> ignoreStdlib = True, ignorePrefixes = ''net'', ignorePackages = ''net/http'',
       includePackages = ''net/h'', filterByBasePath = True, subgraph = False,
       networkSubgraphs = False \<rparr>
     \<lparr> pkgs = Map.empty, networkPackages = Map.empty, ignored = {''C'', ''net/http''},
       ignoredPrefixes = [''net''], includedPackages = [''net/h''],
       basePath = ''github.com/x'' \<rparr>
     \<lparr> ImportPath = ''net/http'', Goroot = True, CgoFiles = [], Imports = [] \<rparr> = False"
  using isIgnored_always_include
    [of "\<lparr> ImportPath = ''net/http'', Goroot = True, CgoFiles = [], Imports = [] \<rparr>"
        "\<lparr> pkgs = Map.empty, networkPackages = Map.empty, ignored = {''C'', ''net/http''},
          ignoredPrefixes = [''net''], includedPackages = [''net/h''],
          basePath = ''github.com/x'' \<rparr>"
        "\<lparr> ignoreStdlib = True, ignorePrefixes = ''net'', ignorePackages = ''net/http'',
          includePackages = ''net/h'', filterByBasePath = True, subgraph = False,
          networkSubgraphs = False \<rparr>"]
  by (simp add: HasPrefix_def isNotOfBasepath_def)

subsection \<open>Edges\<close>



subsection \<open>The graph builder\<close>

lemma extends_refl: "extends g g"
  by (simp add: extends_def)

lemma extends_trans: "extends a b \<Longrightarrow> extends b c \<Longrightarrow> extends a c"
  unfolding extends_def by (simp split: if_splits) blast+

lemma forImports_rel:
  assumes step: "\<And>imp g g'. call imp g = Some (Inr g') \<Longrightarrow> R g g'"
      and refl: "\<And>g. R g g"
      and trans: "\<And>a b c. R a b \<Longrightarrow> R b c \<Longrightarrow> R a c"
  shows "forImports call imps g = Some (Inr g') \<Longrightarrow> R g g'"
proof (induction imps arbitrary: g)
  case Nil
  then show ?case by (simp add: refl)
next
  case (Cons imp imps)
  show ?case
  proof (cases "imp \<in> dom (pkgs g)")
    case True
    with Cons show ?thesis by simp
  next
    case False
    with Cons.prems obtain g1 where c: "call imp g = Some (Inr g1)"
        and r: "forImports call imps g1 = Some (Inr g')"
      by (auto split: option.splits sum.splits)
    from step [OF c] Cons.IH [OF r] show ?thesis by (rule trans)
  qed
qed

lemma forImports_error:
  assumes step: "\<And>imp g. call imp g = Some (Inl err) \<Longrightarrow> Q"
  shows "forImports call imps g = Some (Inl err) \<Longrightarrow> Q"
proof (induction imps arbitrary: g)
  case Nil
  then show ?case by simp
next
  case (Cons imp imps)
  show ?case
  proof (cases "imp \<in> dom (pkgs g)")
    case True
    with Cons show ?thesis by simp
  next
    case False
    show ?thesis
    proof (cases "call imp g")
      case None
      with False Cons.prems show ?thesis by simp
    next
      case (Some r)
      show ?thesis
      proof (cases r)
        case (Inl e)
        with Some False Cons.prems have "call imp g = Some (Inl err)" by simp
        then show ?thesis by (rule step)
      next
        case (Inr g1)
        with Some False Cons.prems have "forImports call imps g1 = Some (Inl err)" by simp
        then show ?thesis by (rule Cons.IH)
      qed
    qed
  qed
qed

lemma processPackage_Suc:
  "processPackage fl bi (Suc n) pkgName g =
     (if pkgName \<in> ignored g then Some (Inr g)
      else (case bi pkgName of
              Inl err \<Rightarrow> Some (Inl (importError pkgName err))
            | Inr pkg \<Rightarrow>
                if isIgnored fl g pkg then Some (Inr g)
                else if Goroot pkg then Some (Inr (enter g pkg))
                else forImports (processPackage fl bi n) (Imports pkg) (enter g pkg)))"
  by (simp add: enter_def importError_def Let_def split: sum.splits)

declare processPackage.simps(2) [simp del]

lemma extends_enter: "extends g (enter g pkg)"
  by (auto simp: extends_def enter_def Let_def)

lemma processPackage_extends:
  "processPackage fl bi n pkgName g = Some (Inr g') \<Longrightarrow> extends g g'"
proof (induction n arbitrary: pkgName g g')
  case 0
  then show ?case by simp
next
  case (Suc n)
  have loop: "extends h h'" if "forImports (processPackage fl bi n) imps h = Some (Inr h')"
    for imps h h'
    using that
    by (rule forImports_rel [where R = extends, rotated 3])
       (auto intro: Suc.IH extends_refl extends_trans)
  from Suc.prems show ?case
    unfolding processPackage_Suc
    by (auto split: if_splits sum.splits
             intro: extends_refl extends_enter extends_trans [OF extends_enter loop])
qed

lemma processPackage_error:
  "processPackage fl bi n pkgName g = Some (Inl err) \<Longrightarrow>
     \<exists>path cause. bi path = Inl cause \<and> err = importError path cause"
proof (induction n arbitrary: pkgName g)
  case 0
  then show ?case by simp
next
  case (Suc n)
  have loop: "\<exists>path cause. bi path = Inl cause \<and> err = importError path cause"
    if "forImports (processPackage fl bi n) imps h = Some (Inl err)" for imps h
    using that by (rule forImports_error [rotated]) (rule Suc.IH)
  from Suc.prems show ?case
    unfolding processPackage_Suc
    by (auto split: if_splits sum.splits dest: loop)
qed




lemma dom_enter: "dom (pkgs (enter g pkg)) = insert (ImportPath pkg) (dom (pkgs g))"
  by (auto simp: enter_def Let_def)





lemma forImports_fails_at_once:
  "imp \<notin> dom (pkgs g) \<Longrightarrow> call imp g = Some (Inl err) \<Longrightarrow>
     forImports call (imp # imps) g = Some (Inl err)"
  by simp

lemma processPackage_import_fails:
  "pkgName \<notin> ignored g \<Longrightarrow> bi pkgName = Inl cause \<Longrightarrow>
     processPackage fl bi (Suc fuel) pkgName g = Some (Inl (importError pkgName cause))"
  by (simp add: processPackage_Suc)

lemma main_Fatal:
  "processPackage fl bi fuel root (configure fl) = Some (Inl err) \<Longrightarrow>
     main fl [root] bi fuel keys1 keys2 = Some (Fatal err)"
  by (simp add: main_def)

lemma main_Printed:
  "main fl args bi fuel keys1 keys2 = Some (Printed out) \<Longrightarrow>
     \<exists>g. processPackage fl bi fuel (args ! 0) (configure fl) = Some (Inr g) \<and>
         out = render fl g keys1 keys2"
  by (auto simp: main_def split: if_splits option.splits sum.splits)

lemma forImports_append:
  "forImports call pre g = Some (Inr h) \<Longrightarrow>
     forImports call (pre @ post) g = forImports call post h"
  by (induction pre arbitrary: g) (auto split: option.splits sum.splits if_splits)

lemma forImports_fails_later:
  assumes "forImports call pre g = Some (Inr h)"
      and "imp \<notin> dom (pkgs h)" and "call imp h = Some (Inl err)"
  shows "forImports call (pre @ imp # post) g = Some (Inl err)"
  unfolding forImports_append [OF assms(1)] using assms(2,3) by simp

lemma forImports_error_at:
  "forImports call imps g = Some (Inl err) \<Longrightarrow>
     \<exists>pre imp post h. imps = pre @ imp # post \<and> forImports call pre g = Some (Inr h) \<and>
        imp \<notin> dom (pkgs h) \<and> call imp h = Some (Inl err)"
proof (induction imps arbitrary: g)
  case Nil
  then show ?case by simp
next
  case (Cons imp imps)
  show ?case
  proof (cases "imp \<in> dom (pkgs g)")
    case True
    with Cons.prems have "forImports call imps g = Some (Inl err)" by simp
    from Cons.IH [OF this] obtain pre i post h where
      x: "imps = pre @ i # post" "forImports call pre g = Some (Inr h)"
         "i \<notin> dom (pkgs h)" "call i h = Some (Inl err)"
      by blast
    have "imp # imps = (imp # pre) @ i # post" using x(1) by simp
    moreover have "forImports call (imp # pre) g = Some (Inr h)" using True x(2) by simp
    ultimately show ?thesis using x(3,4) by blast
  next
    case False
    show ?thesis
    proof (cases "call imp g")
      case None
      with False Cons.prems show ?thesis by simp
    next
      case (Some r)
      show ?thesis
      proof (cases r)
        case (Inl e)
        with Some False Cons.prems have c: "call imp g = Some (Inl err)" by simp
        have "imp # imps = [] @ imp # imps" by simp
        moreover have "forImports call [] g = Some (Inr g)" by simp
        ultimately show ?thesis using False c by blast
      next
        case (Inr g1)
        with Some False Cons.prems have "forImports call imps g1 = Some (Inl err)" by simp
        from Cons.IH [OF this] obtain pre i post h where
          x: "imps = pre @ i # post" "forImports call pre g1 = Some (Inr h)"
             "i \<notin> dom (pkgs h)" "call i h = Some (Inl err)"
          by blast
        have "imp # imps = (imp # pre) @ i # post" using x(1) by simp
        moreover have "forImports call (imp # pre) g = Some (Inr h)"
          using False Some Inr x(2) by simp
        ultimately show ?thesis using x(3,4) by blast
      qed
    qed
  qed
qed

lemma forImports_error_iff:
  "forImports call imps g = Some (Inl err) \<longleftrightarrow>
     (\<exists>pre imp post h. imps = pre @ imp # post \<and> forImports call pre g = Some (Inr h) \<and>
        imp \<notin> dom (pkgs h) \<and> call imp h = Some (Inl err))"
  using forImports_error_at [of call imps g err] forImports_fails_later [of call _ g _ _ err]
  by blast

lemma processPackage_hands_on:
  "pkgName \<notin> ignored g \<Longrightarrow> bi pkgName = Inr pkg \<Longrightarrow> \<not> isIgnored fl g pkg \<Longrightarrow> \<not> Goroot pkg \<Longrightarrow>
     processPackage fl bi (Suc fuel) pkgName g =
       forImports (processPackage fl bi fuel) (Imports pkg) (enter g pkg)"
  by (simp add: processPackage_Suc)

lemma handled_mono: "extends g g' \<Longrightarrow> handled bi g imp \<Longrightarrow> handled bi g' imp"
  unfolding handled_def extends_def by auto

lemma closes_refl: "closes bi g g"
  by (simp add: closes_def extends_refl)

lemma closes_trans:
  assumes "closes bi a b" and "closes bi b c"
  shows "closes bi a c"
proof -
  have e: "extends a c"
    using assms by (auto simp: closes_def intro: extends_trans)
  have "importsHandled bi c k" if "pkgs c k \<noteq> pkgs a k \<or> importsHandled bi a k" for k
  proof (cases "importsHandled bi a k")
    case True
    then have "importsHandled bi b k" using assms(1) by (simp add: closes_def)
    then show ?thesis using assms(2) by (simp add: closes_def)
  next
    case False
    with that have ne: "pkgs c k \<noteq> pkgs a k" by simp
    show ?thesis
    proof (cases "pkgs c k = pkgs b k")
      case True
      with ne have "pkgs b k \<noteq> pkgs a k" by simp
      then have "importsHandled bi b k" using assms(1) by (simp add: closes_def)
      then show ?thesis using assms(2) by (simp add: closes_def)
    next
      case False
      then show ?thesis using assms(2) by (simp add: closes_def)
    qed
  qed
  with e show ?thesis by (simp add: closes_def)
qed

lemma forImports_handled:
  assumes step: "\<And>imp g g'. call imp g = Some (Inr g') \<Longrightarrow> extends g g' \<and> handled bi g imp"
  shows "forImports call imps g = Some (Inr g') \<Longrightarrow> \<forall>imp \<in> set imps. handled bi g' imp"
proof (induction imps arbitrary: g)
  case Nil
  then show ?case by simp
next
  case (Cons imp imps)
  have loop: "extends h h'" if "forImports call is h = Some (Inr h')" for "is" h h'
    using that
    by (rule forImports_rel [where R = extends, rotated 3])
       (auto dest: step intro: extends_refl extends_trans)
  show ?case
  proof (cases "imp \<in> dom (pkgs g)")
    case True
    with Cons.prems have r: "forImports call imps g = Some (Inr g')" by simp
    have "handled bi g imp" using True by (simp add: handled_def)
    then have "handled bi g' imp" using loop [OF r] by (rule handled_mono [rotated])
    with Cons.IH [OF r] show ?thesis by simp
  next
    case False
    with Cons.prems obtain g1 where c: "call imp g = Some (Inr g1)"
        and r: "forImports call imps g1 = Some (Inr g')"
      by (auto split: option.splits sum.splits)
    from step [OF c] have "extends g g1" "handled bi g imp" by simp_all
    then have "handled bi g1 imp" by (rule handled_mono)
    then have "handled bi g' imp" using loop [OF r] by (rule handled_mono [rotated])
    with Cons.IH [OF r] show ?thesis by simp
  qed
qed

lemma processPackage_resolved:
  "processPackage fl bi fuel pkgName g = Some (Inr g') \<Longrightarrow>
     pkgName \<in> ignored g \<or> (\<exists>q. bi pkgName = Inr q)"
  by (cases fuel) (auto simp: processPackage_Suc split: if_splits sum.splits)

lemma processPackage_handled:
  "processPackage fl bi fuel pkgName g = Some (Inr g') \<Longrightarrow> handled bi g pkgName"
  using processPackage_resolved [of fl bi fuel pkgName g g'] by (auto simp: handled_def)


lemma importsHandled_mono:
  assumes "extends g g'" and "pkgs g' k = pkgs g k" and "importsHandled bi g k"
  shows "importsHandled bi g' k"
  using assms(2,3) handled_mono [OF assms(1)] unfolding importsHandled_def by auto

lemma closes_enter_Goroot:
  assumes "Goroot pkg"
  shows "closes bi g (enter g pkg)"
proof -
  have "importsHandled bi (enter g pkg) k"
    if "pkgs (enter g pkg) k \<noteq> pkgs g k \<or> importsHandled bi g k" for k
  proof (cases "k = ImportPath pkg")
    case True
    then have "pkgs (enter g pkg) k = Some pkg" by (simp add: enter_def Let_def)
    with assms show ?thesis by (simp add: importsHandled_def)
  next
    case False
    then have eq: "pkgs (enter g pkg) k = pkgs g k" by (simp add: enter_def Let_def)
    with that have "importsHandled bi g k" by simp
    with extends_enter eq show ?thesis by (rule importsHandled_mono)
  qed
  then show ?thesis by (simp add: closes_def extends_enter)
qed

lemma closes_after_loop:
  assumes r: "closes bi (enter g pkg) g'"
      and h: "\<forall>imp \<in> set (Imports pkg). handled bi g' imp"
  shows "closes bi g g'"
proof -
  from r have e2: "extends (enter g pkg) g'" by (simp add: closes_def)
  have e: "extends g g'"
    using extends_enter e2 by (rule extends_trans)
  have "importsHandled bi g' k" if "pkgs g' k \<noteq> pkgs g k \<or> importsHandled bi g k" for k
  proof (cases "k = ImportPath pkg")
    case True
    then have s: "pkgs (enter g pkg) k = Some pkg" by (simp add: enter_def Let_def)
    show ?thesis
    proof (cases "pkgs g' k = pkgs (enter g pkg) k")
      case True
      with s h show ?thesis by (simp add: importsHandled_def)
    next
      case False
      with r show ?thesis by (simp add: closes_def)
    qed
  next
    case False
    then have eq: "pkgs (enter g pkg) k = pkgs g k" by (simp add: enter_def Let_def)
    have "pkgs g' k \<noteq> pkgs (enter g pkg) k \<or> importsHandled bi (enter g pkg) k"
    proof (cases "importsHandled bi g k")
      case True
      with extends_enter eq have "importsHandled bi (enter g pkg) k"
        by (rule importsHandled_mono)
      then show ?thesis by simp
    next
      case False
      with that eq show ?thesis by simp
    qed
    with r show ?thesis by (simp add: closes_def)
  qed
  with e show ?thesis by (simp add: closes_def)
qed

lemma processPackage_closes:
  "processPackage fl bi n pkgName g = Some (Inr g') \<Longrightarrow> closes bi g g'"
proof (induction n arbitrary: pkgName g g')
  case 0
  then show ?case by simp
next
  case (Suc n)
  have loop: "closes bi h h'" if "forImports (processPackage fl bi n) imps h = Some (Inr h')"
    for imps h h'
    using that
    by (rule forImports_rel [where R = "closes bi", rotated 3])
       (auto intro: Suc.IH closes_refl closes_trans)
  have all: "\<forall>imp \<in> set imps. handled bi h' imp"
    if "forImports (processPackage fl bi n) imps h = Some (Inr h')" for imps h h'
    using that
    by (rule forImports_handled [rotated])
       (auto intro: processPackage_extends processPackage_handled)
  show ?case
  proof (cases "pkgName \<in> ignored g")
    case True
    with Suc.prems show ?thesis by (simp add: processPackage_Suc closes_refl)
  next
    case False
    show ?thesis
    proof (cases "bi pkgName")
      case (Inl e)
      with False Suc.prems show ?thesis by (simp add: processPackage_Suc)
    next
      case (Inr pkg)
      show ?thesis
      proof (cases "isIgnored fl g pkg")
        case True
        with False Inr Suc.prems show ?thesis by (simp add: processPackage_Suc closes_refl)
      next
        case ni: False
        show ?thesis
        proof (cases "Goroot pkg")
          case True
          with False Inr ni Suc.prems have "g' = enter g pkg"
            by (simp add: processPackage_Suc)
          with True show ?thesis by (simp add: closes_enter_Goroot)
        next
          case ng: False
          with False Inr ni Suc.prems
          have l: "forImports (processPackage fl bi n) (Imports pkg) (enter g pkg) = Some (Inr g')"
            by (simp add: processPackage_Suc)
          from loop [OF l] all [OF l] show ?thesis by (rule closes_after_loop)
        qed
      qed
    qed
  qed
qed

lemma processPackage_from_empty:
  assumes "processPackage fl bi n pkgName g = Some (Inr g')" and "pkgs g = Map.empty"
      and "pkgs g' k = Some pkg" and "\<not> Goroot pkg" and "imp \<in> set (Imports pkg)"
  shows "imp \<in> dom (pkgs g') \<or> imp \<in> ignored g' \<or> (\<exists>q. bi imp = Inr q)"
proof -
  from assms(1) have c: "closes bi g g'" by (rule processPackage_closes)
  have "pkgs g' k \<noteq> pkgs g k" using assms(2,3) by simp
  with c have "importsHandled bi g' k" by (simp add: closes_def)
  with assms(3,4,5) have "handled bi g' imp" by (auto simp: importsHandled_def)
  then show ?thesis by (simp add: handled_def)
qed

lemma configure_empty: "pkgs (configure fl) = Map.empty"
  by (simp add: configure_def)

lemma main_Printed_handled:
  assumes "main fl args bi fuel keys keys' = Some (Printed out)"
  shows "length args = 1 \<and>
     (\<exists>g'. processPackage fl bi fuel (args ! 0) (configure fl) = Some (Inr g') \<and>
           out = render fl g' keys keys' \<and>
           (args ! 0 \<in> ignored g' \<or> (\<exists>q. bi (args ! 0) = Inr q)) \<and>
           (\<forall>k pkg imp. pkgs g' k = Some pkg \<and> \<not> Goroot pkg \<and> imp \<in> set (Imports pkg) \<longrightarrow>
               imp \<in> dom (pkgs g') \<or> imp \<in> ignored g' \<or> (\<exists>q. bi imp = Inr q)))"
proof -
  from assms have len: "length args = 1"
    by (auto simp: main_def split: if_splits)
  from assms obtain g' where p: "processPackage fl bi fuel (args ! 0) (configure fl) = Some (Inr g')"
      and o: "out = render fl g' keys keys'"
    by (auto dest: main_Printed)
  from p have e: "extends (configure fl) g'" by (rule processPackage_extends)
  from processPackage_resolved [OF p] e
  have r: "args ! 0 \<in> ignored g' \<or> (\<exists>q. bi (args ! 0) = Inr q)"
    by (auto simp: extends_def)
  have a: "\<forall>k pkg imp. pkgs g' k = Some pkg \<and> \<not> Goroot pkg \<and> imp \<in> set (Imports pkg) \<longrightarrow>
               imp \<in> dom (pkgs g') \<or> imp \<in> ignored g' \<or> (\<exists>q. bi imp = Inr q)"
    using processPackage_from_empty [OF p configure_empty] by blast
  from len p o r a show ?thesis by blast
qed

text \<open>
  C9. An error that \<^verbatim>\<open>processPackage\<close> returns names a path that the provider failed to
  resolve and the provider's own error text. A path outside the ignore set that the provider
  cannot resolve makes the call return that error. The loop over the imports returns an error
  exactly when the imports before some import were passed without one and the call for that
  import, which is not yet a key of the package set, returned the error: the first error ends
  the loop, wherever in the list it arises, and is the loop's result. \<^verbatim>\<open>processPackage\<close>
  returns the error of its loop, and when the call that \<^verbatim>\<open>main\<close> makes returns an error,
  the run ends in \<^verbatim>\<open>log.Fatal\<close> with nothing printed. Whatever a run prints, it prints
  after \<^verbatim>\<open>processPackage\<close> has returned \<^verbatim>\<open>nil\<close>, and then the root was ignored or
  resolved, and every import of every stored package outside the standard library is a key
  of the package set, in the ignore set, or resolved by the provider: no import that the
  walk had to resolve has failed.
\<close>

theorem resolution_failure_is_fatal:
  "(processPackage fl buildImport fuel pkgName g = Some (Inl err) \<longrightarrow>
      (\<exists>path cause. buildImport path = Inl cause \<and>
                    err = ''failed to import '' @ path @ '': '' @ cause)) \<and>
   (pkgName \<notin> ignored g \<and> buildImport pkgName = Inl cause \<longrightarrow>
      processPackage fl buildImport (Suc fuel) pkgName g =
        Some (Inl (''failed to import '' @ pkgName @ '': '' @ cause))) \<and>
   (pkgName \<notin> dom (pkgs g) \<and> processPackage fl buildImport fuel pkgName g = Some (Inl err) \<longrightarrow>
      forImports (processPackage fl buildImport fuel) (pkgName # imps) g = Some (Inl err)) \<and>
   (processPackage fl buildImport fuel root (configure fl) = Some (Inl err) \<longrightarrow>
      main fl [root] buildImport fuel keys keys' = Some (Fatal err)) \<and>
   (forImports (processPackage fl buildImport fuel) todo g = Some (Inl err) \<longleftrightarrow>
      (\<exists>pre imp post h.
          todo = pre @ imp # post \<and>
          forImports (processPackage fl buildImport fuel) pre g = Some (Inr h) \<and>
          imp \<notin> dom (pkgs h) \<and>
          processPackage fl buildImport fuel imp h = Some (Inl err))) \<and>
   (pkgName \<notin> ignored g \<and> buildImport pkgName = Inr pkg \<and> \<not> isIgnored fl g pkg \<and>
    \<not> Goroot pkg \<and>
    forImports (processPackage fl buildImport fuel) (Imports pkg) (enter g pkg) = Some (Inl err) \<longrightarrow>
      processPackage fl buildImport (Suc fuel) pkgName g = Some (Inl err)) \<and>
   (main fl args buildImport fuel keys keys' = Some (Printed out) \<longrightarrow>
      length args = 1 \<and>
      (\<exists>g'. processPackage fl buildImport fuel (args ! 0) (configure fl) = Some (Inr g') \<and>
            out = render fl g' keys keys' \<and>
            (args ! 0 \<in> ignored g' \<or> (\<exists>q. buildImport (args ! 0) = Inr q)) \<and>
            (\<forall>k p imp. pkgs g' k = Some p \<and> \<not> Goroot p \<and> imp \<in> set (Imports p) \<longrightarrow>
                imp \<in> dom (pkgs g') \<or> imp \<in> ignored g' \<or>
                (\<exists>q. buildImport imp = Inr q))))"
proof -
  have 1: "processPackage fl buildImport fuel pkgName g = Some (Inl err) \<longrightarrow>
      (\<exists>path cause. buildImport path = Inl cause \<and>
                    err = ''failed to import '' @ path @ '': '' @ cause)"
    using processPackage_error [of fl buildImport fuel pkgName g err]
    unfolding importError_def by blast
  have 2: "pkgName \<notin> ignored g \<and> buildImport pkgName = Inl cause \<longrightarrow>
      processPackage fl buildImport (Suc fuel) pkgName g =
        Some (Inl (''failed to import '' @ pkgName @ '': '' @ cause))"
    using processPackage_import_fails [of pkgName g buildImport cause fl fuel]
    unfolding importError_def by blast
  have 3: "pkgName \<notin> dom (pkgs g) \<and>
      processPackage fl buildImport fuel pkgName g = Some (Inl err) \<longrightarrow>
      forImports (processPackage fl buildImport fuel) (pkgName # imps) g = Some (Inl err)"
    using forImports_fails_at_once [of pkgName g "processPackage fl buildImport fuel" err imps]
    by blast
  have 4: "processPackage fl buildImport fuel root (configure fl) = Some (Inl err) \<longrightarrow>
      main fl [root] buildImport fuel keys keys' = Some (Fatal err)"
    using main_Fatal [of fl buildImport fuel root err keys keys'] by blast
  have 5: "forImports (processPackage fl buildImport fuel) todo g = Some (Inl err) \<longleftrightarrow>
      (\<exists>pre imp post h.
          todo = pre @ imp # post \<and>
          forImports (processPackage fl buildImport fuel) pre g = Some (Inr h) \<and>
          imp \<notin> dom (pkgs h) \<and>
          processPackage fl buildImport fuel imp h = Some (Inl err))"
    by (rule forImports_error_iff)
  have 6: "pkgName \<notin> ignored g \<and> buildImport pkgName = Inr pkg \<and> \<not> isIgnored fl g pkg \<and>
    \<not> Goroot pkg \<and>
    forImports (processPackage fl buildImport fuel) (Imports pkg) (enter g pkg) = Some (Inl err) \<longrightarrow>
      processPackage fl buildImport (Suc fuel) pkgName g = Some (Inl err)"
    using processPackage_hands_on [of pkgName g buildImport pkg fl fuel] by simp
  have 7: "main fl args buildImport fuel keys keys' = Some (Printed out) \<longrightarrow>
      length args = 1 \<and>
      (\<exists>g'. processPackage fl buildImport fuel (args ! 0) (configure fl) = Some (Inr g') \<and>
            out = render fl g' keys keys' \<and>
            (args ! 0 \<in> ignored g' \<or> (\<exists>q. buildImport (args ! 0) = Inr q)) \<and>
            (\<forall>k p imp. pkgs g' k = Some p \<and> \<not> Goroot p \<and> imp \<in> set (Imports p) \<longrightarrow>
                imp \<in> dom (pkgs g') \<or> imp \<in> ignored g' \<or>
                (\<exists>q. buildImport imp = Inr q)))"
    by (rule impI) (rule main_Printed_handled)
  from 1 2 3 4 5 6 7 show ?thesis by (intro conjI)
qed

lemma ex_configure:
  "configure ex_flags =
     \<lparr> pkgs = Map.empty, networkPackages = Map.empty, ignored = {''C''},
       ignoredPrefixes = [], includedPackages = [''vendor/special''], basePath = [] \<rparr>"
  by (simp add: configure_def ex_flags_def sanitizeCSV_def ToLower_def TrimSpace_def
        toLowerChar_def isSpace_def)

lemma ex_broken_run:
  "processPackage ex_flags ex_broken_Import 3 ''github.com/x/app'' (configure ex_flags) =
     Some (Inl ''failed to import fmt: cannot find package'')"
  unfolding ex_configure
  by (simp add: numeral_3_eq_3 processPackage_Suc enter_def importError_def ex_broken_Import_def
        ex_Import_def ex_app_def ex_lib_def ex_flags_def isIgnored_def isNotOfBasepath_def
        HasPrefix_def)

lemma ex_run:
  "processPackage ex_flags ex_Import 3 ''github.com/x/app'' (configure ex_flags) =
     Some (Inr ex_globals)"
  unfolding ex_configure
  by (simp add: numeral_3_eq_3 processPackage_Suc enter_def ex_globals_def
        ex_Import_def ex_app_def ex_lib_def ex_fmt_def ex_special_def ex_flags_def
        isIgnored_def isNotOfBasepath_def HasPrefix_def)

theorem resolution_failure_is_fatal_witness:
  "processPackage ex_flags ex_broken_Import 3 ''github.com/x/app'' (configure ex_flags) =
     Some (Inl ''failed to import fmt: cannot find package'') \<and>
   ex_broken_Import ''fmt'' = Inl ''cannot find package'' \<and>
   ''fmt'' \<notin> ignored (configure ex_flags) \<and>
   processPackage ex_flags ex_broken_Import (Suc 0) ''fmt'' (configure ex_flags) =
     Some (Inl ''failed to import fmt: cannot find package'') \<and>
   main ex_flags [''github.com/x/app''] ex_broken_Import 3 ex_keys [] =
     Some (Fatal ''failed to import fmt: cannot find package'') \<and>
   ex_late_Import ''tool'' = Inr ex_late_root \<and>
   Imports ex_late_root = [''x/ok'', ''x/missing''] \<and>
   ex_late_Import ''x/ok'' = Inr ex_late_ok \<and>
   ex_late_Import ''x/missing'' = Inl ''cannot find package'' \<and>
   forImports (processPackage ex_no_flags ex_late_Import (Suc 0)) [''x/ok'']
       (enter (configure ex_no_flags) ex_late_root) =
     Some (Inr (enter (enter (configure ex_no_flags) ex_late_root) ex_late_ok)) \<and>
   forImports (processPackage ex_no_flags ex_late_Import (Suc 0)) [''x/ok'', ''x/missing'']
       (enter (configure ex_no_flags) ex_late_root) =
     Some (Inl ''failed to import x/missing: cannot find package'') \<and>
   processPackage ex_no_flags ex_late_Import (Suc (Suc 0)) ''tool'' (configure ex_no_flags) =
     Some (Inl ''failed to import x/missing: cannot find package'') \<and>
   main ex_no_flags [''tool''] ex_late_Import (Suc (Suc 0)) [''tool'', ''x/ok''] [] =
     Some (Fatal ''failed to import x/missing: cannot find package'') \<and>
   main ex_flags [''github.com/x/app''] ex_Import 3 ex_keys [''vendor/special/x''] =
     Some (Printed (render ex_flags ex_globals ex_keys [''vendor/special/x''])) \<and>
   (''fmt'' \<in> dom (pkgs ex_globals) \<or> ''fmt'' \<in> ignored ex_globals \<or>
    (\<exists>q. ex_Import ''fmt'' = Inr q))"
proof -
  have a: "ex_broken_Import ''fmt'' = Inl ''cannot find package''"
    by (simp add: ex_broken_Import_def)
  have b: "''fmt'' \<notin> ignored (configure ex_flags)"
    by (simp add: ex_configure)
  have old: "processPackage ex_flags ex_broken_Import 3 ''github.com/x/app'' (configure ex_flags) =
     Some (Inl ''failed to import fmt: cannot find package'') \<and>
   ex_broken_Import ''fmt'' = Inl ''cannot find package'' \<and>
   ''fmt'' \<notin> ignored (configure ex_flags) \<and>
   processPackage ex_flags ex_broken_Import (Suc 0) ''fmt'' (configure ex_flags) =
     Some (Inl ''failed to import fmt: cannot find package'') \<and>
   main ex_flags [''github.com/x/app''] ex_broken_Import 3 ex_keys [] =
     Some (Fatal ''failed to import fmt: cannot find package'')"
    using resolution_failure_is_fatal
      [where fl = ex_flags and buildImport = ex_broken_Import and fuel = 0 and pkgName = "''fmt''"
         and g = "configure ex_flags" and cause = "''cannot find package''"]
      resolution_failure_is_fatal
      [where fl = ex_flags and buildImport = ex_broken_Import and fuel = 3
         and root = "''github.com/x/app''"
         and err = "''failed to import fmt: cannot find package''"
         and keys = ex_keys and keys' = "[]"]
      a b ex_broken_run
    by simp
  have conf: "configure ex_no_flags =
     \<lparr> pkgs = Map.empty, networkPackages = Map.empty, ignored = {''C''},
       ignoredPrefixes = [], includedPackages = [], basePath = [] \<rparr>"
    by (simp add: configure_def ex_no_flags_def)
  have c: "ex_late_Import ''tool'' = Inr ex_late_root"
    by (simp add: ex_late_Import_def)
  have d: "Imports ex_late_root = [''x/ok'', ''x/missing'']"
    by (simp add: ex_late_root_def)
  have e: "ex_late_Import ''x/ok'' = Inr ex_late_ok"
    by (simp add: ex_late_Import_def)
  have f: "ex_late_Import ''x/missing'' = Inl ''cannot find package''"
    by (simp add: ex_late_Import_def)
  have ok: "forImports (processPackage ex_no_flags ex_late_Import (Suc 0)) [''x/ok'']
       (enter (configure ex_no_flags) ex_late_root) =
     Some (Inr (enter (enter (configure ex_no_flags) ex_late_root) ex_late_ok))"
    unfolding conf
    by (simp add: processPackage_Suc e enter_def ex_late_root_def ex_late_ok_def isIgnored_def
          isNotOfBasepath_def ex_no_flags_def)
  have nd: "''x/missing'' \<notin>
      dom (pkgs (enter (enter (configure ex_no_flags) ex_late_root) ex_late_ok))"
    by (simp add: dom_enter ex_late_root_def ex_late_ok_def conf)
  have ni: "''x/missing'' \<notin>
      ignored (enter (enter (configure ex_no_flags) ex_late_root) ex_late_ok)"
    by (simp add: enter_def Let_def conf)
  have miss: "processPackage ex_no_flags ex_late_Import (Suc 0) ''x/missing''
       (enter (enter (configure ex_no_flags) ex_late_root) ex_late_ok) =
     Some (Inl ''failed to import x/missing: cannot find package'')"
    using resolution_failure_is_fatal
      [where fl = ex_no_flags and buildImport = ex_late_Import and fuel = 0
         and pkgName = "''x/missing''"
         and g = "enter (enter (configure ex_no_flags) ex_late_root) ex_late_ok"
         and cause = "''cannot find package''", THEN conjunct2, THEN conjunct1]
      ni f
    by simp
  have loop: "forImports (processPackage ex_no_flags ex_late_Import (Suc 0))
       [''x/ok'', ''x/missing''] (enter (configure ex_no_flags) ex_late_root) =
     Some (Inl ''failed to import x/missing: cannot find package'')"
  proof -
    have "\<exists>pre imp post h.
        [''x/ok'', ''x/missing''] = pre @ imp # post \<and>
        forImports (processPackage ex_no_flags ex_late_Import (Suc 0)) pre
          (enter (configure ex_no_flags) ex_late_root) = Some (Inr h) \<and>
        imp \<notin> dom (pkgs h) \<and>
        processPackage ex_no_flags ex_late_Import (Suc 0) imp h =
          Some (Inl ''failed to import x/missing: cannot find package'')"
      apply (rule exI [of _ "[''x/ok'']"])
      apply (rule exI [of _ "''x/missing''"])
      apply (rule exI [of _ "[]"])
      apply (rule exI [of _ "enter (enter (configure ex_no_flags) ex_late_root) ex_late_ok"])
      using ok nd miss by simp
    then show ?thesis
      by (rule resolution_failure_is_fatal
           [where fl = ex_no_flags and buildImport = ex_late_Import and fuel = "Suc 0"
              and todo = "[''x/ok'', ''x/missing'']"
              and g = "enter (configure ex_no_flags) ex_late_root"
              and err = "''failed to import x/missing: cannot find package''",
            THEN conjunct2, THEN conjunct2, THEN conjunct2, THEN conjunct2, THEN conjunct1,
            THEN iffD2])
  qed
  have ti: "''tool'' \<notin> ignored (configure ex_no_flags)"
    by (simp add: conf)
  have tn: "\<not> isIgnored ex_no_flags (configure ex_no_flags) ex_late_root"
    unfolding conf
    by (simp add: isIgnored_def isNotOfBasepath_def ex_no_flags_def ex_late_root_def)
  have tg: "\<not> Goroot ex_late_root"
    by (simp add: ex_late_root_def)
  have call: "processPackage ex_no_flags ex_late_Import (Suc (Suc 0)) ''tool''
       (configure ex_no_flags) =
     Some (Inl ''failed to import x/missing: cannot find package'')"
    using resolution_failure_is_fatal
      [where fl = ex_no_flags and buildImport = ex_late_Import and fuel = "Suc 0"
         and pkgName = "''tool''" and g = "configure ex_no_flags" and pkg = ex_late_root
         and err = "''failed to import x/missing: cannot find package''",
       THEN conjunct2, THEN conjunct2, THEN conjunct2, THEN conjunct2, THEN conjunct2,
       THEN conjunct1]
      ti c tn tg loop [folded d]
    by simp
  have fatal: "main ex_no_flags [''tool''] ex_late_Import (Suc (Suc 0)) [''tool'', ''x/ok''] [] =
     Some (Fatal ''failed to import x/missing: cannot find package'')"
    using resolution_failure_is_fatal
      [where fl = ex_no_flags and buildImport = ex_late_Import and fuel = "Suc (Suc 0)"
         and root = "''tool''" and err = "''failed to import x/missing: cannot find package''"
         and keys = "[''tool'', ''x/ok'']" and keys' = "[]",
       THEN conjunct2, THEN conjunct2, THEN conjunct2, THEN conjunct1]
      call
    by simp
  have printed: "main ex_flags [''github.com/x/app''] ex_Import 3 ex_keys [''vendor/special/x''] =
     Some (Printed (render ex_flags ex_globals ex_keys [''vendor/special/x'']))"
    by (simp add: main_def ex_run)
  have lib: "pkgs ex_globals ''github.com/x/lib/a'' = Some ex_lib"
    by (simp add: ex_globals_def)
  have lg: "\<not> Goroot ex_lib" and li: "''fmt'' \<in> set (Imports ex_lib)"
    by (simp_all add: ex_lib_def)
  from resolution_failure_is_fatal
      [where fl = ex_flags and buildImport = ex_Import and fuel = 3
         and args = "[''github.com/x/app'']" and keys = ex_keys
         and keys' = "[''vendor/special/x'']"
         and out = "render ex_flags ex_globals ex_keys [''vendor/special/x'']",
       THEN conjunct2, THEN conjunct2, THEN conjunct2, THEN conjunct2, THEN conjunct2,
       THEN conjunct2, THEN mp, OF printed]
  obtain g' where
    r: "processPackage ex_flags ex_Import 3 ([''github.com/x/app''] ! 0) (configure ex_flags) =
          Some (Inr g')"
    and h: "\<forall>k p imp. pkgs g' k = Some p \<and> \<not> Goroot p \<and> imp \<in> set (Imports p) \<longrightarrow>
                imp \<in> dom (pkgs g') \<or> imp \<in> ignored g' \<or> (\<exists>q. ex_Import imp = Inr q)"
    by blast
  from r have g': "g' = ex_globals" by (simp add: ex_run)
  from h lib lg li have handled: "''fmt'' \<in> dom (pkgs ex_globals) \<or> ''fmt'' \<in> ignored ex_globals \<or>
    (\<exists>q. ex_Import ''fmt'' = Inr q)"
    unfolding g' by blast
  from old c d e f ok loop call fatal printed handled show ?thesis
    by (intro conjI) simp_all
qed

subsection \<open>The base path\<close>

lemma processPackage_after_enter:
  assumes "pkgName \<notin> ignored g" and "bi pkgName = Inr pkg" and "\<not> isIgnored fl g pkg"
      and "processPackage fl bi fuel pkgName g = Some (Inr g')"
  shows "extends (enter g pkg) g'"
proof (cases fuel)
  case 0
  with assms show ?thesis by simp
next
  case (Suc n)
  have loop: "extends h h'" if "forImports (processPackage fl bi n) imps h = Some (Inr h')"
    for imps h h'
    using that
    by (rule forImports_rel [where R = extends, rotated 3])
       (auto intro: processPackage_extends extends_refl extends_trans)
  show ?thesis
  proof (cases "Goroot pkg")
    case True
    with assms Suc show ?thesis by (simp add: processPackage_Suc extends_refl)
  next
    case False
    with assms Suc show ?thesis by (auto simp add: processPackage_Suc intro: loop)
  qed
qed

lemma basePath_enter:
  "basePath (enter g pkg) =
     (if basePath g = []
      then Join (take (length (Split (ImportPath pkg) (CHR ''/'')) - 1)
                   (Split (ImportPath pkg) (CHR ''/''))) ''/''
      else basePath g)"
  by (simp add: enter_def Let_def)

lemma basePath_fixed:
  "basePath g \<noteq> [] \<Longrightarrow> processPackage fl bi fuel pkgName g = Some (Inr g') \<Longrightarrow>
     basePath g' = basePath g"
  by (drule processPackage_extends) (simp add: extends_def)

lemma basePath_inferred:
  assumes "pkgName \<notin> ignored g" and "bi pkgName = Inr pkg" and "\<not> isIgnored fl g pkg"
      and "basePath g = []"
      and "Join (take (length (Split (ImportPath pkg) (CHR ''/'')) - 1)
                   (Split (ImportPath pkg) (CHR ''/''))) ''/'' \<noteq> []"
      and "processPackage fl bi fuel pkgName g = Some (Inr g')"
  shows "basePath g' = Join (take (length (Split (ImportPath pkg) (CHR ''/'')) - 1)
                               (Split (ImportPath pkg) (CHR ''/''))) ''/''"
proof -
  have "extends (enter g pkg) g'"
    using assms(1,2,3,6) by (rule processPackage_after_enter)
  with assms(4,5) show ?thesis
    by (simp add: extends_def basePath_enter)
qed

lemma isIgnored_without_filter:
  "\<not> filterByBasePath fl \<Longrightarrow> isIgnored fl (g\<lparr>basePath := bp\<rparr>) pkg = isIgnored fl g pkg"
  by (simp add: isIgnored_def isNotOfBasepath_def)

lemma isNotOfBasepath_with_filter:
  "filterByBasePath fl \<Longrightarrow> isNotOfBasepath fl importPath bp = (\<not> HasPrefix importPath bp)"
  by (simp add: isNotOfBasepath_def)

text \<open>
  C5, as the code has it. Whether or not \<^verbatim>\<open>-b\<close> is given: when \<^verbatim>\<open>processPackage\<close>
  enters a package (resolved, not ignored) while the base path is empty, the base path
  becomes that package's import path split on \<^verbatim>\<open>"/"\<close>, without its last segment,
  joined with \<^verbatim>\<open>"/"\<close> again, and if that is not empty it is the base path when the
  call returns; a base path that is not empty is never changed. The base-path restriction
  of \<open>isIgnored\<close> applies only under \<^verbatim>\<open>-b\<close>: without the flag \<open>isIgnored\<close> does
  not depend on the base path, with it \<open>isNotOfBasepath\<close> is the failed prefix test.
\<close>

theorem basePath_inference:
  "(pkgName \<notin> ignored g \<and> buildImport pkgName = Inr pkg \<and> \<not> isIgnored fl g pkg \<and>
    basePath g = [] \<and>
    Join (take (length (Split (ImportPath pkg) (CHR ''/'')) - 1)
            (Split (ImportPath pkg) (CHR ''/''))) ''/'' \<noteq> [] \<and>
    processPackage fl buildImport fuel pkgName g = Some (Inr g')
      \<longrightarrow> basePath g' = Join (take (length (Split (ImportPath pkg) (CHR ''/'')) - 1)
                                 (Split (ImportPath pkg) (CHR ''/''))) ''/'') \<and>
   (basePath h \<noteq> [] \<and> processPackage fl buildImport n q h = Some (Inr h')
      \<longrightarrow> basePath h' = basePath h) \<and>
   (\<not> filterByBasePath fl \<longrightarrow> isIgnored fl (g\<lparr>basePath := bp\<rparr>) pkg = isIgnored fl g pkg) \<and>
   (filterByBasePath fb \<longrightarrow> isNotOfBasepath fb importPath bp = (\<not> HasPrefix importPath bp))"
  using basePath_inferred [where pkgName = pkgName and g = g and bi = buildImport and pkg = pkg
                             and fl = fl and fuel = fuel and g' = g']
    basePath_fixed [where g = h and fl = fl and bi = buildImport and fuel = n and pkgName = q
                      and g' = h']
    isIgnored_without_filter [where fl = fl and g = g and bp = bp and pkg = pkg]
    isNotOfBasepath_with_filter [where fl = fb and importPath = importPath and bp = bp]
  by blast

text \<open>
  The claim as stated, that the base path is inferred only under \<^verbatim>\<open>-b\<close>, fails: the
  example runs without \<^verbatim>\<open>-b\<close>, starts with no base path and ends with
  \<^verbatim>\<open>github.com/x\<close>.
\<close>

theorem basePath_inferred_without_b:
  "filterByBasePath ex_flags = False \<and>
   basePath (configure ex_flags) = [] \<and>
   processPackage ex_flags ex_Import 3 ''github.com/x/app'' (configure ex_flags) =
     Some (Inr ex_globals) \<and>
   basePath ex_globals = ''github.com/x''"
  using ex_run by (simp add: ex_configure) (simp add: ex_flags_def ex_globals_def)



lemma ex_fmt_run:
  "processPackage ex_flags ex_Import (Suc 0) ''fmt'' ex_globals = Some (Inr (enter ex_globals ex_fmt))"
proof -
  have "''fmt'' \<notin> ignored ex_globals" by (simp add: ex_globals_def)
  moreover have "ex_Import ''fmt'' = Inr ex_fmt" by (simp add: ex_Import_def)
  moreover have "\<not> isIgnored ex_flags ex_globals ex_fmt"
    by (simp add: ex_globals_def ex_fmt_def ex_flags_def isIgnored_def isNotOfBasepath_def
          HasPrefix_def)
  moreover have "Goroot ex_fmt" by (simp add: ex_fmt_def)
  ultimately show ?thesis by (simp add: processPackage_Suc)
qed


theorem basePath_inference_witness:
  "''github.com/x/app'' \<notin> ignored (configure ex_flags) \<and>
   ex_Import ''github.com/x/app'' = Inr ex_app \<and>
   \<not> isIgnored ex_flags (configure ex_flags) ex_app \<and>
   basePath (configure ex_flags) = [] \<and>
   processPackage ex_flags ex_Import 3 ''github.com/x/app'' (configure ex_flags) =
     Some (Inr ex_globals) \<and>
   basePath ex_globals = ''github.com/x'' \<and>
   processPackage ex_flags ex_Import (Suc 0) ''fmt'' ex_globals =
     Some (Inr (enter ex_globals ex_fmt)) \<and>
   basePath (enter ex_globals ex_fmt) = ''github.com/x'' \<and>
   \<not> filterByBasePath ex_flags \<and>
   isIgnored ex_flags (ex_globals\<lparr>basePath := ''elsewhere''\<rparr>) ex_app =
     isIgnored ex_flags ex_globals ex_app \<and>
   filterByBasePath (ex_flags\<lparr>filterByBasePath := True\<rparr>) \<and>
   isNotOfBasepath (ex_flags\<lparr>filterByBasePath := True\<rparr>) ''fmt'' ''github.com/x''"
proof -
  note inst = basePath_inference
      [where pkgName = "''github.com/x/app''" and g = "configure ex_flags"
         and buildImport = ex_Import and pkg = ex_app and fl = ex_flags and fuel = 3
         and g' = ex_globals and h = ex_globals and n = "Suc 0" and q = "''fmt''"
         and h' = "enter ex_globals ex_fmt" and bp = "''github.com/x''"
         and fb = "ex_flags\<lparr>filterByBasePath := True\<rparr>" and importPath = "''fmt''"]
  note inst' = basePath_inference
      [where g = ex_globals and pkg = ex_app and fl = ex_flags and bp = "''elsewhere''"]
  have a: "''github.com/x/app'' \<notin> ignored (configure ex_flags)"
    by (simp add: ex_configure)
  have a': "basePath (configure ex_flags) = []"
    by (simp add: ex_configure)
  have b: "ex_Import ''github.com/x/app'' = Inr ex_app"
    by (simp add: ex_Import_def)
  have c: "\<not> isIgnored ex_flags (configure ex_flags) ex_app"
    unfolding ex_configure
    by (simp add: isIgnored_def isNotOfBasepath_def ex_flags_def ex_app_def HasPrefix_def)
  have d: "Join (take (length (Split (ImportPath ex_app) (CHR ''/'')) - 1)
                   (Split (ImportPath ex_app) (CHR ''/''))) ''/'' = ''github.com/x''"
    by (simp add: ex_app_def)
  have e: "\<not> filterByBasePath ex_flags"
    by (simp add: ex_flags_def)
  have e': "filterByBasePath (ex_flags\<lparr>filterByBasePath := True\<rparr>)"
    by simp
  have f: "\<not> HasPrefix ''fmt'' ''github.com/x''"
    by (simp add: HasPrefix_def)
  have 1: "basePath ex_globals = ''github.com/x''"
    using inst [THEN conjunct1] a a' b c d ex_run by simp
  have 2: "basePath (enter ex_globals ex_fmt) = ''github.com/x''"
    using inst [THEN conjunct2, THEN conjunct1] 1 ex_fmt_run by simp
  have 3: "isIgnored ex_flags (ex_globals\<lparr>basePath := ''elsewhere''\<rparr>) ex_app =
             isIgnored ex_flags ex_globals ex_app"
    using inst' [THEN conjunct2, THEN conjunct2, THEN conjunct1] e by blast
  have 4: "isNotOfBasepath (ex_flags\<lparr>filterByBasePath := True\<rparr>) ''fmt'' ''github.com/x''"
    using inst [THEN conjunct2, THEN conjunct2, THEN conjunct2] e' f by blast
  from a a' b c ex_run 1 ex_fmt_run 2 e 3 e' 4 show ?thesis
    by (intro conjI)
qed

subsection \<open>Identifiers\<close>

text \<open>
  C10. \<open>ns\<close> puts the base path and a colon before the name, whatever the base path
  is. Every node and every edge that a run prints, the synthetic nodes and edges of the
  second loop included, carries identifiers of that form, a node the one made from its
  label; so with the empty base path every identifier printed begins with a colon.
\<close>

theorem identifiers_namespaced:
  "ns g name = basePath g @ '':'' @ name \<and>
   printNode g name color = NodeStmt (basePath g @ '':'' @ name) name color \<and>
   printEdge g source dest = EdgeStmt (basePath g @ '':'' @ source) (basePath g @ '':'' @ dest) \<and>
   (\<forall>s \<in> set (render fl g keys keys').
      case s of
        Line l \<Rightarrow> True
      | NodeStmt ident label c \<Rightarrow> ident = basePath g @ '':'' @ label
      | EdgeStmt a b \<Rightarrow> (\<exists>x y. a = basePath g @ '':'' @ x \<and> b = basePath g @ '':'' @ y)) \<and>
   (basePath g = [] \<longrightarrow>
      (\<forall>s \<in> set (render fl g keys keys').
         case s of
           Line l \<Rightarrow> True
         | NodeStmt ident label c \<Rightarrow> ident = CHR '':'' # label
         | EdgeStmt a b \<Rightarrow> (\<exists>x y. a = CHR '':'' # x \<and> b = CHR '':'' # y)))"
proof -
  have all: "\<forall>s \<in> set (render fl g keys keys'). namespaced (basePath g) s"
    by (simp add: render_namespaced)
  have "\<forall>s \<in> set (render fl g keys keys').
      case s of
        Line l \<Rightarrow> True
      | NodeStmt ident label c \<Rightarrow> ident = basePath g @ '':'' @ label
      | EdgeStmt a b \<Rightarrow> (\<exists>x y. a = basePath g @ '':'' @ x \<and> b = basePath g @ '':'' @ y)"
    using all by (auto simp: namespaced_def split: stmt.splits)
  moreover have "\<forall>s \<in> set (render fl g keys keys').
         case s of
           Line l \<Rightarrow> True
         | NodeStmt ident label c \<Rightarrow> ident = CHR '':'' # label
         | EdgeStmt a b \<Rightarrow> (\<exists>x y. a = CHR '':'' # x \<and> b = CHR '':'' # y)"
    if "basePath g = []"
    using all that by (auto simp: namespaced_def split: stmt.splits)
  ultimately show ?thesis
    by (simp add: ns_def printNode_def printEdge_def)
qed

lemma ex_flat_render:
  "render ex_no_flags ex_flat_globals [''lib'', ''app''] [] =
     [Line ''digraph godep {'',
      NodeStmt '':lib'' ''lib'' ''paleturquoise'',
      NodeStmt '':app'' ''app'' ''paleturquoise'',
      EdgeStmt '':app'' '':lib'',
      Line ''}'']"
  by (simp add: render_def ex_no_flags_def ex_flat_globals_def isIgnored_def isNotOfBasepath_def
        printNode_def printEdge_def ns_def)

theorem identifiers_namespaced_witness:
  "basePath ex_flat_globals = [] \<and>
   render ex_no_flags ex_flat_globals [''lib'', ''app''] [] =
     [Line ''digraph godep {'',
      NodeStmt '':lib'' ''lib'' ''paleturquoise'',
      NodeStmt '':app'' ''app'' ''paleturquoise'',
      EdgeStmt '':app'' '':lib'',
      Line ''}''] \<and>
   (\<exists>x y. '':app'' = CHR '':'' # x \<and> '':lib'' = CHR '':'' # y)"
proof -
  have b: "basePath ex_flat_globals = []"
    by (simp add: ex_flat_globals_def)
  have m: "EdgeStmt '':app'' '':lib'' \<in> set (render ex_no_flags ex_flat_globals [''lib'', ''app''] [])"
    by (simp add: ex_flat_render)
  have "\<exists>x y. '':app'' = CHR '':'' # x \<and> '':lib'' = CHR '':'' # y"
    using identifiers_namespaced
      [where g = ex_flat_globals and fl = ex_no_flags and keys = "[''lib'', ''app'']"
         and keys' = "[]", THEN conjunct2, THEN conjunct2, THEN conjunct2, THEN conjunct2,
       THEN mp, OF b, THEN bspec, OF m]
    by simp
  with b ex_flat_render show ?thesis by (intro conjI)
qed

subsection \<open>Network subgraphs\<close>

lemma networkStmts_networkPackages [simp]:
  "networkStmts (g\<lparr>networkPackages := m\<rparr>) = networkStmts g"
  by (rule ext) (simp add: networkStmts_def)

lemma isNetworkPackage_iff:
  "isNetworkPackage fl g k \<longleftrightarrow>
     (\<exists>pkg. pkgs g k = Some pkg \<and> \<not> isIgnored fl g pkg \<and> networkSubgraphs fl \<and>
            hasPrefixes (ImportPath pkg) (includedPackages g) \<and>
            \<not> HasPrefix (ImportPath pkg) (basePath g))"
  by (simp add: isNetworkPackage_def split: option.splits)

lemma networkPackages_after_loop:
  assumes "networkPackages g = Map.empty" and "set keys = dom (pkgs g)"
  shows "networkPackages (snd (renderPkgs fl g keys)) =
           (\<lambda>k. if isNetworkPackage fl g k then Some k else None)"
proof
  fix k
  have "isNetworkPackage fl g k \<Longrightarrow> k \<in> set keys"
    using assms(2) by (auto simp: isNetworkPackage_iff)
  then show "networkPackages (snd (renderPkgs fl g keys)) k =
               (if isNetworkPackage fl g k then Some k else None)"
    using assms(1) by (auto simp: renderPkgs_snd)
qed

lemma renderNetwork_after_loop:
  assumes "networkPackages g = Map.empty" and "set keys = dom (pkgs g)"
      and "set keys' = dom (networkPackages (snd (renderPkgs fl g keys)))"
  shows "renderNetwork (snd (renderPkgs fl g keys)) keys' = concat (map (networkStmts g) keys')"
proof -
  have "\<forall>k \<in> set keys'. networkPackages (snd (renderPkgs fl g keys)) k = Some k"
    using assms(3) unfolding networkPackages_after_loop [OF assms(1,2)]
    by (auto split: if_splits)
  then have "renderNetwork (snd (renderPkgs fl g keys)) keys' =
               concat (map (networkStmts (snd (renderPkgs fl g keys))) keys')"
    by (rule renderNetwork_eq)
  then show ?thesis
    by (simp add: renderPkgs_snd)
qed

text \<open>
  C6. Let \<^verbatim>\<open>networkPackages\<close> be empty when the main loop starts (as \<^verbatim>\<open>main\<close> leaves
  it), let the main loop visit the keys of the package set and the second loop the keys of
  \<^verbatim>\<open>networkPackages\<close>, each once. Then the second loop visits exactly the packages
  that are not ignored, match an always-include prefix and do not start with the base
  path, and only if \<^verbatim>\<open>-network-subgraphs\<close> is given. For each of them, with \<^verbatim>\<open>n\<close> the
  last segment of its path, it prints the four lines of a subgraph head, which are
  \<^verbatim>\<open>subgraph "clustern" {\<close>, \<^verbatim>\<open>style=filled;\<close>, \<^verbatim>\<open>color=lightgrey;\<close> and \<^verbatim>\<open>label="n"\<close>,
  then one node with the label \<^verbatim>\<open>n\<close> and the colour paleturquoise, the closing brace, and
  an edge from the package's node to that node; the statements and the text written for
  them are both given. It prints this after the main loop and after the base-path
  subgraph, whose head is spelled out as well, is closed. Without the flag it prints
  nothing.
\<close>

theorem network_subgraph_pass:
  assumes "networkPackages g = Map.empty"
      and "set keys = dom (pkgs g)"
      and "distinct keys'"
      and "set keys' = dom (networkPackages (snd (renderPkgs fl g keys)))"
  shows "set keys' =
           {k. \<exists>pkg. pkgs g k = Some pkg \<and> \<not> isIgnored fl g pkg \<and> networkSubgraphs fl \<and>
                     hasPrefixes (ImportPath pkg) (includedPackages g) \<and>
                     \<not> HasPrefix (ImportPath pkg) (basePath g)} \<and>
         renderNetwork (snd (renderPkgs fl g keys)) keys' =
           concat (map (\<lambda>k. [Line (''subgraph '' @ [CHR 0x22] @ ''cluster'' @
                                      last (Split k (CHR ''/'')) @ [CHR 0x22] @ '' {''),
                              Line ''style=filled;'',
                              Line ''color=lightgrey;'',
                              Line (''label='' @ [CHR 0x22] @ last (Split k (CHR ''/'')) @
                                      [CHR 0x22]),
                              NodeStmt (basePath g @ '':'' @ last (Split k (CHR ''/'')))
                                (last (Split k (CHR ''/''))) ''paleturquoise'',
                              Line ''}'',
                              EdgeStmt (basePath g @ '':'' @ k)
                                (basePath g @ '':'' @ last (Split k (CHR ''/'')))])
                       keys') \<and>
         map showStmt (renderNetwork (snd (renderPkgs fl g keys)) keys') =
           concat (map (\<lambda>k. [''subgraph '' @ [CHR 0x22] @ ''cluster'' @
                                last (Split k (CHR ''/'')) @ [CHR 0x22] @ '' {'',
                              ''style=filled;'',
                              ''color=lightgrey;'',
                              ''label='' @ [CHR 0x22] @ last (Split k (CHR ''/'')) @ [CHR 0x22],
                              [CHR 0x22] @ basePath g @ '':'' @ last (Split k (CHR ''/'')) @
                                [CHR 0x22] @ '' [label='' @ [CHR 0x22] @
                                last (Split k (CHR ''/'')) @ [CHR 0x22] @ '' style='' @
                                [CHR 0x22] @ ''filled'' @ [CHR 0x22] @ '' color='' @
                                [CHR 0x22] @ ''paleturquoise'' @ [CHR 0x22] @ ''];'',
                              ''}'',
                              [CHR 0x22] @ basePath g @ '':'' @ k @ [CHR 0x22] @ '' -> '' @
                                [CHR 0x22] @ basePath g @ '':'' @ last (Split k (CHR ''/'')) @
                                [CHR 0x22] @ '';''])
                       keys') \<and>
         render fl g keys keys' =
           [Line ''digraph godep {''] @
           (if subgraph fl \<and> basePath g \<noteq> []
            then [Line (''subgraph '' @ [CHR 0x22] @ ''cluster'' @ basePath g @ [CHR 0x22] @
                          '' {''),
                  Line ''style=filled;'',
                  Line ''color=lightgrey;'',
                  Line (''label='' @ [CHR 0x22] @ basePath g @ [CHR 0x22])]
            else []) @
           fst (renderPkgs fl g keys) @
           (if subgraph fl \<and> basePath g \<noteq> [] then [Line ''}''] else []) @
           renderNetwork (snd (renderPkgs fl g keys)) keys' @
           [Line ''}''] \<and>
         (if networkSubgraphs fl then True
          else keys' = [] \<and> renderNetwork (snd (renderPkgs fl g keys)) keys' = [])"
proof -
  have dom: "set keys' = {k. isNetworkPackage fl g k}"
    using assms(4) unfolding networkPackages_after_loop [OF assms(1,2)]
    by (auto simp: dom_def)
  have 1: "set keys' =
           {k. \<exists>pkg. pkgs g k = Some pkg \<and> \<not> isIgnored fl g pkg \<and> networkSubgraphs fl \<and>
                     hasPrefixes (ImportPath pkg) (includedPackages g) \<and>
                     \<not> HasPrefix (ImportPath pkg) (basePath g)}"
    unfolding dom isNetworkPackage_iff ..
  have 2: "renderNetwork (snd (renderPkgs fl g keys)) keys' =
             concat (map (networkStmts g) keys')"
    using assms(1,2,4) by (rule renderNetwork_after_loop)
  have unfold: "networkStmts g =
      (\<lambda>k. [Line (''subgraph '' @ [CHR 0x22] @ ''cluster'' @
                     last (Split k (CHR ''/'')) @ [CHR 0x22] @ '' {''),
             Line ''style=filled;'',
             Line ''color=lightgrey;'',
             Line (''label='' @ [CHR 0x22] @ last (Split k (CHR ''/'')) @ [CHR 0x22]),
             NodeStmt (basePath g @ '':'' @ last (Split k (CHR ''/'')))
                (last (Split k (CHR ''/''))) ''paleturquoise'',
             Line ''}'',
             EdgeStmt (basePath g @ '':'' @ k)
                (basePath g @ '':'' @ last (Split k (CHR ''/'')))])"
    by (rule ext) (simp add: networkStmts_def Let_def printSubgraphHead_def dq_def)
  note n2 = 2 [unfolded unfold]
  have 3: "keys' = []" if "\<not> networkSubgraphs fl"
    using 1 that by simp
  have 4: "render fl g keys keys' =
           [Line ''digraph godep {''] @
           (if subgraph fl \<and> basePath g \<noteq> []
            then [Line (''subgraph '' @ [CHR 0x22] @ ''cluster'' @ basePath g @ [CHR 0x22] @
                          '' {''),
                  Line ''style=filled;'',
                  Line ''color=lightgrey;'',
                  Line (''label='' @ [CHR 0x22] @ basePath g @ [CHR 0x22])]
            else []) @
           fst (renderPkgs fl g keys) @
           (if subgraph fl \<and> basePath g \<noteq> [] then [Line ''}''] else []) @
           renderNetwork (snd (renderPkgs fl g keys)) keys' @
           [Line ''}'']"
    by (simp add: render_def Let_def printSubgraphHead_def dq_def)
  have 5: "map showStmt (renderNetwork (snd (renderPkgs fl g keys)) keys') =
           concat (map (\<lambda>k. [''subgraph '' @ [CHR 0x22] @ ''cluster'' @
                                last (Split k (CHR ''/'')) @ [CHR 0x22] @ '' {'',
                              ''style=filled;'',
                              ''color=lightgrey;'',
                              ''label='' @ [CHR 0x22] @ last (Split k (CHR ''/'')) @ [CHR 0x22],
                              [CHR 0x22] @ basePath g @ '':'' @ last (Split k (CHR ''/'')) @
                                [CHR 0x22] @ '' [label='' @ [CHR 0x22] @
                                last (Split k (CHR ''/'')) @ [CHR 0x22] @ '' style='' @
                                [CHR 0x22] @ ''filled'' @ [CHR 0x22] @ '' color='' @
                                [CHR 0x22] @ ''paleturquoise'' @ [CHR 0x22] @ ''];'',
                              ''}'',
                              [CHR 0x22] @ basePath g @ '':'' @ k @ [CHR 0x22] @ '' -> '' @
                                [CHR 0x22] @ basePath g @ '':'' @ last (Split k (CHR ''/'')) @
                                [CHR 0x22] @ '';''])
                       keys')"
    unfolding n2 by (simp add: map_concat comp_def dq_def)
  have 6: "if networkSubgraphs fl then True
          else keys' = [] \<and> renderNetwork (snd (renderPkgs fl g keys)) keys' = []"
    using 3 by simp
  from 1 n2 5 4 6 show ?thesis by (intro conjI)
qed


lemma ex_isNetworkPackage:
  "isNetworkPackage ex_flags ex_globals k \<longleftrightarrow> k = ''vendor/special/x''"
proof -
  have a: "\<not> isNetworkPackage ex_flags ex_globals ''github.com/x/app''"
    by (simp add: isNetworkPackage_def ex_globals_def ex_app_def HasPrefix_def)
  have b: "\<not> isNetworkPackage ex_flags ex_globals ''github.com/x/lib/a''"
    by (simp add: isNetworkPackage_def ex_globals_def ex_lib_def HasPrefix_def)
  have c: "\<not> isNetworkPackage ex_flags ex_globals ''fmt''"
    by (simp add: isNetworkPackage_def ex_globals_def ex_fmt_def HasPrefix_def)
  have d: "isNetworkPackage ex_flags ex_globals ''vendor/special/x''"
    by (simp add: isNetworkPackage_def ex_globals_def ex_special_def ex_flags_def HasPrefix_def
          isIgnored_def)
  have e: "isNetworkPackage ex_flags ex_globals k \<Longrightarrow> k \<in> dom (pkgs ex_globals)"
    by (auto simp: isNetworkPackage_iff)
  have f: "dom (pkgs ex_globals) =
             {''github.com/x/app'', ''github.com/x/lib/a'', ''fmt'', ''vendor/special/x''}"
    by (auto simp: ex_globals_def)
  show ?thesis
  proof
    assume n: "isNetworkPackage ex_flags ex_globals k"
    then have "k = ''github.com/x/app'' \<or> k = ''github.com/x/lib/a'' \<or> k = ''fmt'' \<or>
               k = ''vendor/special/x''"
      using e f by simp
    then show "k = ''vendor/special/x''"
      using a b c n by (elim disjE) simp_all
  next
    assume "k = ''vendor/special/x''"
    then show "isNetworkPackage ex_flags ex_globals k"
      using d by simp
  qed
qed


theorem network_subgraph_pass_witness:
  "networkPackages ex_globals = Map.empty \<and>
   set ex_keys = dom (pkgs ex_globals) \<and>
   distinct [''vendor/special/x''] \<and>
   set [''vendor/special/x''] =
     dom (networkPackages (snd (renderPkgs ex_flags ex_globals ex_keys))) \<and>
   renderNetwork (snd (renderPkgs ex_flags ex_globals ex_keys)) [''vendor/special/x''] =
     [Line (''subgraph '' @ [CHR 0x22] @ ''clusterx'' @ [CHR 0x22] @ '' {''),
      Line ''style=filled;'',
      Line ''color=lightgrey;'',
      Line (''label='' @ [CHR 0x22] @ ''x'' @ [CHR 0x22]),
      NodeStmt ''github.com/x:x'' ''x'' ''paleturquoise'',
      Line ''}'',
      EdgeStmt ''github.com/x:vendor/special/x'' ''github.com/x:x''] \<and>
   map showStmt
     (renderNetwork (snd (renderPkgs ex_flags ex_globals ex_keys)) [''vendor/special/x'']) =
     [''subgraph '' @ [CHR 0x22] @ ''clusterx'' @ [CHR 0x22] @ '' {'',
      ''style=filled;'',
      ''color=lightgrey;'',
      ''label='' @ [CHR 0x22] @ ''x'' @ [CHR 0x22],
      [CHR 0x22] @ ''github.com/x:x'' @ [CHR 0x22] @ '' [label='' @ [CHR 0x22] @ ''x'' @
        [CHR 0x22] @ '' style='' @ [CHR 0x22] @ ''filled'' @ [CHR 0x22] @ '' color='' @
        [CHR 0x22] @ ''paleturquoise'' @ [CHR 0x22] @ ''];'',
      ''}'',
      [CHR 0x22] @ ''github.com/x:vendor/special/x'' @ [CHR 0x22] @ '' -> '' @ [CHR 0x22] @
        ''github.com/x:x'' @ [CHR 0x22] @ '';'']"
proof -
  have h1: "networkPackages ex_globals = Map.empty"
    by (simp add: ex_globals_def)
  have h2: "set ex_keys = dom (pkgs ex_globals)"
    by (auto simp: ex_keys_def ex_globals_def)
  have h3: "distinct [''vendor/special/x'']"
    by simp
  have h4: "set [''vendor/special/x''] =
              dom (networkPackages (snd (renderPkgs ex_flags ex_globals ex_keys)))"
    unfolding networkPackages_after_loop [OF h1 h2]
    by (simp add: dom_def ex_isNetworkPackage)
  have bp: "basePath ex_globals = ''github.com/x''"
    by (simp add: ex_globals_def)
  have stmts: "renderNetwork (snd (renderPkgs ex_flags ex_globals ex_keys))
       [''vendor/special/x''] =
     [Line (''subgraph '' @ [CHR 0x22] @ ''clusterx'' @ [CHR 0x22] @ '' {''),
      Line ''style=filled;'',
      Line ''color=lightgrey;'',
      Line (''label='' @ [CHR 0x22] @ ''x'' @ [CHR 0x22]),
      NodeStmt ''github.com/x:x'' ''x'' ''paleturquoise'',
      Line ''}'',
      EdgeStmt ''github.com/x:vendor/special/x'' ''github.com/x:x'']"
    using network_subgraph_pass [OF h1 h2 h3 h4, THEN conjunct2, THEN conjunct1]
    by (simp add: bp)
  have lines: "map showStmt
     (renderNetwork (snd (renderPkgs ex_flags ex_globals ex_keys)) [''vendor/special/x'']) =
     [''subgraph '' @ [CHR 0x22] @ ''clusterx'' @ [CHR 0x22] @ '' {'',
      ''style=filled;'',
      ''color=lightgrey;'',
      ''label='' @ [CHR 0x22] @ ''x'' @ [CHR 0x22],
      [CHR 0x22] @ ''github.com/x:x'' @ [CHR 0x22] @ '' [label='' @ [CHR 0x22] @ ''x'' @
        [CHR 0x22] @ '' style='' @ [CHR 0x22] @ ''filled'' @ [CHR 0x22] @ '' color='' @
        [CHR 0x22] @ ''paleturquoise'' @ [CHR 0x22] @ ''];'',
      ''}'',
      [CHR 0x22] @ ''github.com/x:vendor/special/x'' @ [CHR 0x22] @ '' -> '' @ [CHR 0x22] @
        ''github.com/x:x'' @ [CHR 0x22] @ '';'']"
    using network_subgraph_pass [OF h1 h2 h3 h4, THEN conjunct2, THEN conjunct2, THEN conjunct1]
    by (simp add: bp)
  from h1 h2 h3 h4 stmts lines show ?thesis by (intro conjI)
qed

subsection \<open>Letter case in the ignore and include lists\<close>

lemma ex_case_sanitize: "sanitizeCSV ''Sirupsen/logrus'' = [''sirupsen/logrus'']"
  by code_simp

lemma ex_case_configure:
  "configure ex_case_flags =
     \<lparr> pkgs = Map.empty, networkPackages = Map.empty, ignored = {''C'', ''sirupsen/logrus''},
       ignoredPrefixes = [], includedPackages = [], basePath = [] \<rparr>"
  by (auto simp add: configure_def ex_case_flags_def ex_case_sanitize)

text \<open>
  C7. The entries of the three lists are lower-cased when the flags are read, but the import
  paths they are compared with are not: the comparison is exact, so an entry matches only
  paths that are already in lower case. Here \<^verbatim>\<open>-i Sirupsen/logrus\<close> puts
  \<^verbatim>\<open>sirupsen/logrus\<close> into the ignore set; the package \<^verbatim>\<open>Sirupsen/logrus\<close> is
  resolved, is not ignored, and is printed with its node and the edge to it.
\<close>

theorem ignore_list_is_case_sensitive:
  "sanitizeCSV (ignorePackages ex_case_flags) = [''sirupsen/logrus''] \<and>
   ex_case_Import ''Sirupsen/logrus'' = Inr ex_logrus \<and>
   isIgnored ex_case_flags (configure ex_case_flags) ex_logrus = False \<and>
   main ex_case_flags [''tool''] ex_case_Import 2 [''tool'', ''Sirupsen/logrus''] [] =
     Some (Printed
       [Line ''digraph godep {'',
        NodeStmt ''Sirupsen:tool'' ''tool'' ''paleturquoise'',
        EdgeStmt ''Sirupsen:tool'' ''Sirupsen:Sirupsen/logrus'',
        NodeStmt ''Sirupsen:Sirupsen/logrus'' ''Sirupsen/logrus'' ''paleturquoise'',
        Line ''}''])"
proof -
  have a: "sanitizeCSV (ignorePackages ex_case_flags) = [''sirupsen/logrus'']"
    by (simp add: ex_case_flags_def ex_case_sanitize)
  have b: "ex_case_Import ''Sirupsen/logrus'' = Inr ex_logrus"
    by (simp add: ex_case_Import_def)
  have c: "isIgnored ex_case_flags (configure ex_case_flags) ex_logrus = False"
    unfolding ex_case_configure
    by (simp add: isIgnored_def isNotOfBasepath_def ex_logrus_def ex_case_flags_def)
  have d: "processPackage ex_case_flags ex_case_Import 2 ''tool'' (configure ex_case_flags) =
             Some (Inr \<lparr> pkgs = [''tool'' \<mapsto> ex_tool, ''Sirupsen/logrus'' \<mapsto> ex_logrus],
                         networkPackages = Map.empty, ignored = {''C'', ''sirupsen/logrus''},
                         ignoredPrefixes = [], includedPackages = [], basePath = ''Sirupsen'' \<rparr>)"
    unfolding ex_case_configure
    by (simp add: numeral_2_eq_2 processPackage_Suc enter_def ex_case_Import_def ex_tool_def
          ex_logrus_def ex_case_flags_def isIgnored_def isNotOfBasepath_def)
  have r: "render ex_case_flags
               \<lparr> pkgs = [''tool'' \<mapsto> ex_tool, ''Sirupsen/logrus'' \<mapsto> ex_logrus],
                 networkPackages = Map.empty, ignored = {''C'', ''sirupsen/logrus''},
                 ignoredPrefixes = [], includedPackages = [], basePath = ''Sirupsen'' \<rparr>
               [''tool'', ''Sirupsen/logrus''] [] =
       [Line ''digraph godep {'',
        NodeStmt ''Sirupsen:tool'' ''tool'' ''paleturquoise'',
        EdgeStmt ''Sirupsen:tool'' ''Sirupsen:Sirupsen/logrus'',
        NodeStmt ''Sirupsen:Sirupsen/logrus'' ''Sirupsen/logrus'' ''paleturquoise'',
        Line ''}'']"
    by (simp add: render_def ex_tool_def ex_logrus_def ex_case_flags_def isIgnored_def
          isNotOfBasepath_def printNode_def printEdge_def ns_def)
  have e: "main ex_case_flags [''tool''] ex_case_Import 2 [''tool'', ''Sirupsen/logrus''] [] =
     Some (Printed
       [Line ''digraph godep {'',
        NodeStmt ''Sirupsen:tool'' ''tool'' ''paleturquoise'',
        EdgeStmt ''Sirupsen:tool'' ''Sirupsen:Sirupsen/logrus'',
        NodeStmt ''Sirupsen:Sirupsen/logrus'' ''Sirupsen/logrus'' ''paleturquoise'',
        Line ''}''])"
    by (simp add: main_def d r)
  from a b c e show ?thesis by (intro conjI)
qed

subsection \<open>Termination of the graph builder\<close>

lemma forImports_returns:
  assumes call: "\<And>imp h. imp \<in> S \<Longrightarrow> imp \<notin> dom (pkgs h) \<Longrightarrow> P h \<Longrightarrow> \<exists>r. call imp h = Some r"
      and keep: "\<And>imp h h'. P h \<Longrightarrow> call imp h = Some (Inr h') \<Longrightarrow> P h'"
  shows "set imps \<subseteq> S \<Longrightarrow> P g \<Longrightarrow> \<exists>r. forImports call imps g = Some r"
proof (induction imps arbitrary: g)
  case Nil
  show ?case by simp
next
  case (Cons imp imps)
  show ?case
  proof (cases "imp \<in> dom (pkgs g)")
    case True
    with Cons show ?thesis by simp
  next
    case False
    with Cons.prems obtain r where r: "call imp g = Some r"
      using call [of imp g] by auto
    show ?thesis
    proof (cases r)
      case (Inl e)
      with r False show ?thesis by simp
    next
      case (Inr h)
      with r Cons.prems have "P h" by (auto intro: keep)
      with Cons.prems Cons.IH [of h] r Inr False show ?thesis by simp
    qed
  qed
qed

lemma card_unvisited_mono:
  "finite V \<Longrightarrow> extends g g' \<Longrightarrow> card (V - dom (pkgs g')) \<le> card (V - dom (pkgs g))"
  by (rule card_mono) (auto simp: extends_def)

lemma processPackage_returns:
  assumes "canonical bi V"
  shows "p \<in> V \<Longrightarrow> p \<notin> dom (pkgs g) \<Longrightarrow> card (V - dom (pkgs g)) \<le> n \<Longrightarrow>
           \<exists>r. processPackage fl bi n p g = Some r"
proof (induction n arbitrary: p g)
  case 0
  have "finite (V - dom (pkgs g))" using assms by (simp add: canonical_def)
  with 0 show ?case by auto
next
  case (Suc n)
  have fin: "finite V" using assms by (simp add: canonical_def)
  show ?case
  proof (cases "p \<in> ignored g")
    case True
    then show ?thesis by (simp add: processPackage_Suc)
  next
    case False
    note not_ignored = this
    show ?thesis
    proof (cases "bi p")
      case (Inl err)
      with not_ignored show ?thesis by (simp add: processPackage_Suc)
    next
      case (Inr pkg)
      have path: "ImportPath pkg = p" and imps: "set (Imports pkg) \<subseteq> V"
        using assms Suc.prems(1) Inr by (auto simp: canonical_def)
      have "card (V - dom (pkgs (enter g pkg))) < card (V - dom (pkgs g))"
        using fin Suc.prems(1,2) path
        by (intro psubset_card_mono) (auto simp: dom_enter)
      with Suc.prems(3) have less: "card (V - dom (pkgs (enter g pkg))) \<le> n" by simp
      have "\<exists>r. forImports (processPackage fl bi n) (Imports pkg) (enter g pkg) = Some r"
      proof (rule forImports_returns
               [where S = V and P = "\<lambda>h. card (V - dom (pkgs h)) \<le> n"])
        show "\<exists>r. processPackage fl bi n imp h = Some r"
          if "imp \<in> V" "imp \<notin> dom (pkgs h)" "card (V - dom (pkgs h)) \<le> n" for imp h
          using that by (rule Suc.IH)
        show "card (V - dom (pkgs h')) \<le> n"
          if "card (V - dom (pkgs h)) \<le> n" "processPackage fl bi n imp h = Some (Inr h')"
          for imp h h'
          using card_unvisited_mono [OF fin processPackage_extends [OF that(2)]] that(1)
          by simp
        show "set (Imports pkg) \<subseteq> V" by (rule imps)
        show "card (V - dom (pkgs (enter g pkg))) \<le> n" by (rule less)
      qed
      with not_ignored Inr show ?thesis by (auto simp: processPackage_Suc)
    qed
  qed
qed

lemma processPackage_terminates:
  assumes "canonical bi V" and "root \<in> V"
  shows "\<exists>r. processPackage fl bi (card V) root (configure fl) = Some r"
  using assms(1) by (rule processPackage_returns) (simp_all add: assms(2) configure_def)


lemma ex_canonical:
  "canonical ex_Import
     {''github.com/x/app'', ''github.com/x/lib/a'', ''fmt'', ''vendor/special/x'', ''C'',
      ''errors''}"
  by (simp add: canonical_def ex_Import_def ex_app_def ex_lib_def ex_fmt_def ex_special_def)

lemma ex_terminates:
  "\<exists>r. processPackage fl ex_Import (Suc (Suc (Suc (Suc (Suc (Suc 0))))))
         ''github.com/x/app'' (configure fl) = Some r"
  using processPackage_terminates [OF ex_canonical, of "''github.com/x/app''" fl]
  by simp

lemma cycle_inv_enter:
  "cycle_inv g \<Longrightarrow> cycle_inv (enter g ex_cycle_a) \<and> cycle_inv (enter g ex_cycle_b)"
  by (auto simp: cycle_inv_def enter_def Let_def ex_cycle_a_def ex_cycle_b_def)

lemma cycle_not_ignored:
  "cycle_inv g \<Longrightarrow> \<not> isIgnored ex_no_flags g ex_cycle_a \<and> \<not> isIgnored ex_no_flags g ex_cycle_b"
  by (simp add: cycle_inv_def isIgnored_def isNotOfBasepath_def ex_no_flags_def ex_cycle_a_def
        ex_cycle_b_def)

lemma cycle_not_entered: "cycle_inv g \<Longrightarrow> ''a'' \<notin> dom (pkgs g) \<and> ''b'' \<notin> dom (pkgs g)"
  by (auto simp: cycle_inv_def)

lemma cycle_never_returns:
  "cycle_inv g \<Longrightarrow>
     processPackage ex_no_flags ex_cycle_Import fuel ''a'' g = None \<and>
     processPackage ex_no_flags ex_cycle_Import fuel ''b'' g = None"
proof (induction fuel arbitrary: g)
  case 0
  show ?case by simp
next
  case (Suc fuel)
  have ign: "''a'' \<notin> ignored g" "''b'' \<notin> ignored g"
    using Suc.prems by (simp_all add: cycle_inv_def)
  have res: "ex_cycle_Import ''a'' = Inr ex_cycle_a" "ex_cycle_Import ''b'' = Inr ex_cycle_b"
    by (simp_all add: ex_cycle_Import_def)
  have imps: "Imports ex_cycle_a = [''b'']" "Imports ex_cycle_b = [''a'']"
      "\<not> Goroot ex_cycle_a" "\<not> Goroot ex_cycle_b"
    by (simp_all add: ex_cycle_a_def ex_cycle_b_def)
  note ea = cycle_inv_enter [OF Suc.prems, THEN conjunct1]
  note eb = cycle_inv_enter [OF Suc.prems, THEN conjunct2]
  have "processPackage ex_no_flags ex_cycle_Import (Suc fuel) ''a'' g =
          forImports (processPackage ex_no_flags ex_cycle_Import fuel) [''b''] (enter g ex_cycle_a)"
    using ign res imps cycle_not_ignored [OF Suc.prems] by (simp add: processPackage_Suc)
  also have "\<dots> = None"
    using cycle_not_entered [OF ea] Suc.IH [OF ea] by simp
  finally have a: "processPackage ex_no_flags ex_cycle_Import (Suc fuel) ''a'' g = None" .
  have "processPackage ex_no_flags ex_cycle_Import (Suc fuel) ''b'' g =
          forImports (processPackage ex_no_flags ex_cycle_Import fuel) [''a''] (enter g ex_cycle_b)"
    using ign res imps cycle_not_ignored [OF Suc.prems] by (simp add: processPackage_Suc)
  also have "\<dots> = None"
    using cycle_not_entered [OF eb] Suc.IH [OF eb] by simp
  finally have b: "processPackage ex_no_flags ex_cycle_Import (Suc fuel) ''b'' g = None" .
  from a b show ?case ..
qed

lemma ex_no_configure:
  "configure ex_no_flags =
     \<lparr> pkgs = Map.empty, networkPackages = Map.empty, ignored = {''C''},
       ignoredPrefixes = [], includedPackages = [], basePath = [] \<rparr>"
  by (simp add: configure_def ex_no_flags_def)

text \<open>
  C4. The call returns on every finite graph in canonical spelling, cyclic or not
  (\<open>processPackage_terminates\<close> above; \<open>ex_terminates\<close> is a cyclic instance). It does
  not return on every finite graph: a package is entered under its import path, but the loop
  over the imports asks whether the import string is a key. Where the two differ, as for
  vendored packages, a package that is already entered is resolved again, and on the cycle
  of the example, whose graph has two import strings, no amount of fuel lets the call return.
\<close>

theorem vendored_cycle_never_returns:
  "{p. \<exists>pkg. ex_cycle_Import p = Inr pkg} = {''a'', ''b''} \<and>
   (\<forall>fuel. processPackage ex_no_flags ex_cycle_Import fuel ''a'' (configure ex_no_flags) = None)"
proof -
  have "cycle_inv (configure ex_no_flags)"
    by (simp add: ex_no_configure cycle_inv_def)
  then have "\<forall>fuel. processPackage ex_no_flags ex_cycle_Import fuel ''a''
                      (configure ex_no_flags) = None"
    by (simp add: cycle_never_returns)
  moreover have "{p. \<exists>pkg. ex_cycle_Import p = Inr pkg} = {''a'', ''b''}"
    by (auto simp: ex_cycle_Import_def split: if_splits)
  ultimately show ?thesis by simp
qed

subsection \<open>Determinism\<close>













































end
